theory Spec2Isabelle
  imports Main
begin

section \<open>Strings and the Python string primitives used by DL7480CTL.py\<close>

text \<open>
  Python \<open>str\<close> values are modelled as \<open>string\<close> (a list of 8-bit characters) and
  \<open>len\<close> as \<open>length\<close>: the instrument talks ASCII, one character per byte.
\<close>

abbreviation NL :: char where
  "NL \<equiv> CHR 0x0A"

definition py_strip :: "string \<Rightarrow> string \<Rightarrow> string" where
  \<comment> \<open>\<open>s.strip(chars)\<close>: drop leading and trailing characters that occur in \<open>chars\<close>.\<close>
  "py_strip chars s =
     rev (dropWhile (\<lambda>c. c \<in> set chars) (rev (dropWhile (\<lambda>c. c \<in> set chars) s)))"

section \<open>YokogawaDL7480.splitInst (lines 565-580)\<close>

text \<open>
  \<open>re.search(r'^;(:.{,1018};):', s)\<close>. The pattern is anchored at the start of \<open>s\<close>:
  a \<open>;\<close>, then group 1 = \<open>:\<close> followed by at most 1018 characters other than newline and
  a \<open>;\<close>, then a \<open>:\<close>. The quantifier is greedy, so the matcher first takes as many
  characters as it may (\<open>dot_max\<close>) and gives them back one at a time until \<open>;:\<close>
  follows (\<open>try_k\<close>). A match yields group 1 and the end offset of the whole match.
\<close>

definition dot_max :: "string \<Rightarrow> nat" where
  "dot_max t = min 1018 (length (takeWhile (\<lambda>c. c \<noteq> NL) t))"

definition semi_colon_at :: "string \<Rightarrow> nat \<Rightarrow> bool" where
  "semi_colon_at t k \<longleftrightarrow> Suc k < length t \<and> t ! k = CHR '';'' \<and> t ! Suc k = CHR '':''"

fun try_k :: "string \<Rightarrow> nat \<Rightarrow> nat option" where
  "try_k t 0 = (if semi_colon_at t 0 then Some 0 else None)"
| "try_k t (Suc k) = (if semi_colon_at t (Suc k) then Some (Suc k) else try_k t k)"

definition re_search :: "string \<Rightarrow> (string \<times> nat) option" where
  "re_search s =
     (case s of
        a # b # t \<Rightarrow>
          if a = CHR '';'' \<and> b = CHR '':'' then
            (case try_k t (dot_max t) of
               None \<Rightarrow> None
             | Some k \<Rightarrow> Some (take (k + 2) (b # t), k + 4))
          else None
      | _ \<Rightarrow> None)"

lemma try_k_le: "try_k t m = Some k \<Longrightarrow> k \<le> m \<and> semi_colon_at t k"
  by (induction m) (auto split: if_splits)

lemma re_search_span:
  assumes "re_search s = Some (g, e)"
  shows "4 \<le> e \<and> e \<le> length s"
proof -
  from assms obtain t k where s: "s = CHR '';'' # CHR '':'' # t"
    and k: "try_k t (dot_max t) = Some k" and e: "e = k + 4"
    by (auto simp: re_search_def split: list.splits if_splits option.splits)
  from try_k_le[OF k] have "Suc k < length t" by (simp add: semi_colon_at_def)
  with s e show ?thesis by simp
qed

text \<open>
  The \<open>while m != None\<close> loop: \<open>r\<close> collects the chunks, \<open>s\<close> is what remains.
  Every round removes at least four characters and puts two back.
\<close>

function split_loop :: "string \<Rightarrow> string list \<Rightarrow> string list \<times> string" where
  "split_loop s r =
     (case re_search s of
        None \<Rightarrow> (r, s)
      | Some (g, e) \<Rightarrow> split_loop ('';:'' @ drop e s) (r @ [''*WAI;'' @ g @ [NL]]))"
  by pat_completeness auto
termination
proof (relation "measure (\<lambda>(s, r). length s)")
  show "wf (measure (\<lambda>(s, r). length s))" by simp
next
  fix s :: string and r :: "string list" and x2 x y
  assume "re_search s = Some x2" and "(x, y) = x2"
  then have "re_search s = Some (x, y)" by simp
  from re_search_span[OF this] have "Suc (Suc (length s - y)) < length s"
    by arith
  then show "(('';:'' @ drop y s, r @ [''*WAI;'' @ x @ [NL]]), (s, r)) \<in> measure (\<lambda>(s, r). length s)"
    by simp
qed

declare split_loop.simps [simp del]

text \<open>
  \<open>splitInst\<close> returns \<open>''.join(r)\<close>; \<open>splitInst_chunks\<close> is the list \<open>r\<close> before the
  join (in the short branch: the one string that is returned).
\<close>

definition splitInst_chunks :: "string \<Rightarrow> string list" where
  "splitInst_chunks arg =
     (if int (length arg) < 1024 - 6 then
        [''*WAI;'' @ py_strip [CHR '';'', NL] arg @ [NL]]
      else
        (let s0 = '';'' @ py_strip [CHR '';'', NL] arg @ '';'';
             (r, s) = split_loop s0 []
         in if length s > 0 then r @ [''*WAI;'' @ py_strip '';'' s @ [NL]] else r))"

definition splitInst :: "string \<Rightarrow> string" where
  "splitInst arg = concat (splitInst_chunks arg)"



section \<open>What splitInst guarantees\<close>

text \<open>
  A chunk is \<open>*WAI;\<close> + payload + newline. The sections of a composite string are its
  pieces between the places where a \<open>;\<close> is followed by a \<open>:\<close>; each piece keeps its
  closing \<open>;\<close>.
\<close>

definition payload :: "string \<Rightarrow> string" where
  "payload c = butlast (drop 5 c)"

fun sections :: "string \<Rightarrow> string list" where
  "sections [] = []"
| "sections [c] = [[c]]"
| "sections (c # d # cs) =
     (if c = CHR '';'' \<and> d = CHR '':'' then [c] # sections (d # cs)
      else (case sections (d # cs) of [] \<Rightarrow> [[c]] | p # ps \<Rightarrow> (c # p) # ps))"


lemma sections_Nil_iff: "sections xs = [] \<longleftrightarrow> xs = []"
  by (induction xs rule: sections.induct) (auto split: list.splits)

lemma sections_append:
  "xs \<noteq> [] \<Longrightarrow> last xs = CHR '';'' \<Longrightarrow> sections (xs @ CHR '':'' # zs) = sections xs @ sections (CHR '':'' # zs)"
proof (induction xs rule: sections.induct)
  case 1 then show ?case by simp
next
  case (2 c) then show ?case by simp
next
  case (3 c d cs)
  then show ?case by (auto split: list.splits simp: sections_Nil_iff)
qed

lemma re_search_shape:
  assumes "re_search s = Some (g, e)"
  shows "s = CHR '';'' # g @ CHR '':'' # drop e s \<and> g \<noteq> [] \<and> hd g = CHR '':'' \<and> last g = CHR '';''
         \<and> length g \<le> 1020"
proof -
  from assms obtain t k where s: "s = CHR '';'' # CHR '':'' # t"
    and k: "try_k t (dot_max t) = Some k" and e: "e = k + 4" and g: "g = CHR '':'' # take (Suc k) t"
    by (auto simp: re_search_def split: list.splits if_splits option.splits)
  from try_k_le[OF k] have km: "k \<le> dot_max t" and lt: "Suc k < length t"
    and tk: "t ! k = CHR '';''" and tk1: "t ! Suc k = CHR '':''"
    by (simp_all add: semi_colon_at_def)
  have tk': "take (Suc k) t = take k t @ [CHR '';'']"
    using lt tk by (simp add: take_Suc_conv_app_nth)
  have "t = take (Suc k) t @ t ! Suc k # drop (Suc (Suc k)) t"
    using lt by (simp add: id_take_nth_drop[symmetric])
  then have t: "t = take (Suc k) t @ CHR '':'' # drop (k + 2) t" using tk1 by simp
  have e': "e = Suc (Suc (k + 2))" using e by simp
  have d: "drop e s = drop (k + 2) t" unfolding e' s by simp
  have shape: "s = CHR '';'' # g @ CHR '':'' # drop e s"
    unfolding d g using s t by simp
  have len: "length g \<le> 1020" using g km lt by (simp add: dot_max_def)
  show ?thesis using shape g tk' len by simp
qed

definition wrap :: "string \<Rightarrow> string" where
  "wrap g = ''*WAI;'' @ g @ [NL]"

definition unit_ok :: "string \<Rightarrow> bool" where
  "unit_ok g \<longleftrightarrow> g \<noteq> [] \<and> hd g = CHR '':'' \<and> last g = CHR '';''"

lemma split_loop_inv:
  "split_loop s r = (r', s') \<Longrightarrow>
   \<exists>gs. r' = r @ map wrap gs \<and> list_all unit_ok gs \<and>
        (gs = [] \<longrightarrow> s' = s) \<and>
        (gs \<noteq> [] \<longrightarrow> (\<exists>rest. s' = '';:'' @ rest \<and> tl s = concat gs @ CHR '':'' # rest))"
proof (induction s r arbitrary: r' s' rule: split_loop.induct)
  case (1 s r)
  show ?case
  proof (cases "re_search s")
    case None
    with "1.prems" have "r' = r" "s' = s" by (simp_all add: split_loop.simps)
    then show ?thesis by (intro exI[of _ "[]"]) simp
  next
    case (Some ge)
    obtain g e where ge: "ge = (g, e)" by (cases ge)
    from Some ge have rs: "re_search s = Some (g, e)" by simp
    from "1.prems" rs have sl: "split_loop ('';:'' @ drop e s) (r @ [''*WAI;'' @ g @ [NL]]) = (r', s')"
      by (simp add: split_loop.simps)
    from "1.IH"[OF Some ge[symmetric] sl] obtain gs where
      r': "r' = (r @ [''*WAI;'' @ g @ [NL]]) @ map wrap gs" and ok: "list_all unit_ok gs"
      and e1: "gs = [] \<longrightarrow> s' = '';:'' @ drop e s"
      and e2: "gs \<noteq> [] \<longrightarrow> (\<exists>rest. s' = '';:'' @ rest \<and> tl ('';:'' @ drop e s) = concat gs @ CHR '':'' # rest)"
      by blast
    from re_search_shape[OF rs] have sh: "s = CHR '';'' # g @ CHR '':'' # drop e s" and gok: "unit_ok g"
      by (simp_all add: unit_ok_def)
    have tls: "tl s = g @ CHR '':'' # drop e s" using sh by (metis list.sel(3))
    show ?thesis
    proof (intro exI[of _ "g # gs"] conjI impI)
      show "r' = r @ map wrap (g # gs)" using r' by (simp add: wrap_def)
      show "list_all unit_ok (g # gs)" using ok gok by simp
      show "s' = s" if "g # gs = []" using that by simp
      show "\<exists>rest. s' = '';:'' @ rest \<and> tl s = concat (g # gs) @ CHR '':'' # rest"
      proof (cases "gs = []")
        case True
        with e1 tls show ?thesis by simp
      next
        case False
        with e2 obtain rest where "s' = '';:'' @ rest" "tl ('';:'' @ drop e s) = concat gs @ CHR '':'' # rest"
          by blast
        with tls show ?thesis by simp
      qed
    qed
  qed
qed

lemma py_strip_ends:
  "py_strip cs s = [] \<or> (hd (py_strip cs s) \<notin> set cs \<and> last (py_strip cs s) \<notin> set cs)"
proof -
  define P where "P = (\<lambda>c. c \<in> set cs)"
  define u where "u = dropWhile P s"
  define v where "v = dropWhile P (rev u)"
  have t: "py_strip cs s = rev v" by (simp add: py_strip_def P_def u_def v_def)
  show ?thesis
  proof (cases "v = []")
    case True then show ?thesis using t by simp
  next
    case False
    then have hv: "\<not> P (hd v)" unfolding v_def by (rule hd_dropWhile)
    have "rev u = takeWhile P (rev u) @ v" by (simp add: v_def)
    then have "u = rev v @ rev (takeWhile P (rev u))" by (metis rev_append rev_rev_ident)
    then have "hd u = hd (rev v)" using False by (metis hd_append2 rev_is_Nil_conv)
    moreover have "u \<noteq> []" using False v_def by auto
    then have "\<not> P (hd u)" unfolding u_def by (rule hd_dropWhile)
    ultimately have "\<not> P (hd (rev v))" by simp
    moreover have "last (rev v) = hd v" using False by (simp add: last_rev)
    ultimately show ?thesis using t hv by (simp add: P_def)
  qed
qed

lemma py_strip_wrapped:
  assumes "u = [] \<or> (hd u \<noteq> c \<and> last u \<noteq> c)"
  shows "py_strip [c] (c # u @ [c]) = u"
proof (cases "u = []")
  case True then show ?thesis by (simp add: py_strip_def)
next
  case False
  with assms have h: "hd u \<noteq> c" and l: "last u \<noteq> c" by simp_all
  obtain a u' where u: "u = a # u'" using False by (cases u) auto
  have 1: "dropWhile (\<lambda>x. x \<in> set [c]) (c # u @ [c]) = u @ [c]" using h u by simp
  obtain b w where r: "rev u = b # w" using False by (cases "rev u") auto
  have "b = last u" using r False by (metis hd_rev list.sel(1))
  then have "dropWhile (\<lambda>x. x \<in> set [c]) (b # w) = b # w" using l by simp
  then have 2: "dropWhile (\<lambda>x. x \<in> set [c]) (rev (u @ [c])) = rev u" by (simp add: r)
  show ?thesis unfolding py_strip_def 1 2 by simp
qed

lemma splitInst_chunks_long:
  assumes "1018 \<le> length arg"
  shows "\<exists>gs f. splitInst_chunks arg = map wrap (gs @ [f]) \<and> list_all unit_ok gs \<and>
           concat gs @ f = py_strip [CHR '';'', NL] arg \<and> (gs \<noteq> [] \<longrightarrow> f \<noteq> [] \<and> hd f = CHR '':'')"
proof -
  define t where "t = py_strip [CHR '';'', NL] arg"
  define s0 where "s0 = '';'' @ t @ '';''"
  obtain r s where sl: "split_loop s0 [] = (r, s)" by (cases "split_loop s0 []")
  from split_loop_inv[OF sl] obtain gs where r: "r = map wrap gs" and ok: "list_all unit_ok gs"
    and e1: "gs = [] \<longrightarrow> s = s0"
    and e2: "gs \<noteq> [] \<longrightarrow> (\<exists>rest. s = '';:'' @ rest \<and> tl s0 = concat gs @ CHR '':'' # rest)"
    by auto
  have tends: "t = [] \<or> (hd t \<noteq> CHR '';'' \<and> last t \<noteq> CHR '';'')"
    using py_strip_ends[of "[CHR '';'', NL]" arg] by (auto simp: t_def)
  have sne: "s \<noteq> []" using e1 e2 by (cases "gs = []") (auto simp: s0_def)
  have "splitInst_chunks arg =
          (case split_loop s0 [] of (r, s) \<Rightarrow>
             if length s > 0 then r @ [''*WAI;'' @ py_strip '';'' s @ [NL]] else r)"
    using assms by (simp add: splitInst_chunks_def t_def s0_def)
  then have ch: "splitInst_chunks arg = map wrap (gs @ [py_strip '';'' s])"
    unfolding sl using sne r by (simp add: wrap_def)
  show ?thesis
  proof (cases "gs = []")
    case True
    with e1 have "s = CHR '';'' # t @ [CHR '';'']" by (simp add: s0_def)
    then have "py_strip '';'' s = t" using py_strip_wrapped[OF tends] by simp
    with ch ok True show ?thesis by (intro exI[of _ gs] exI[of _ t]) (simp add: t_def)
  next
    case False
    with e2 obtain rest where s: "s = '';:'' @ rest" and tl0: "tl s0 = concat gs @ CHR '':'' # rest"
      by blast
    from tl0 have eq: "t @ [CHR '';''] = concat gs @ CHR '':'' # rest" by (simp add: s0_def)
    then have "last (CHR '':'' # rest) = CHR '';''" by (metis last_appendR last_snoc list.distinct(1))
    then have rne: "rest \<noteq> []" and lr: "last rest = CHR '';''" by (auto split: if_splits)
    then obtain x where x: "rest = x @ [CHR '';'']" by (metis append_butlast_last_id)
    with eq have "t @ [CHR '';''] = (concat gs @ CHR '':'' # x) @ [CHR '';'']" by simp
    then have t: "t = concat gs @ CHR '':'' # x" by (simp only: append1_eq_conv)
    then have "t \<noteq> []" by simp
    with tends have "last t \<noteq> CHR '';''" by simp
    with t have "last (CHR '':'' # x) \<noteq> CHR '';''" by simp
    then have "py_strip '';'' (CHR '';'' # (CHR '':'' # x) @ [CHR '';'']) = CHR '':'' # x"
      by (intro py_strip_wrapped) simp
    then have "py_strip '';'' s = CHR '':'' # x" using s x by simp
    with ch ok t show ?thesis
      by (intro exI[of _ gs] exI[of _ "CHR '':'' # x"]) (simp add: t_def)
  qed
qed

lemma payload_wrap: "payload (wrap g) = g"
  by (simp add: payload_def wrap_def butlast_append)

lemma sections_concat:
  "list_all unit_ok gs \<Longrightarrow> (gs \<noteq> [] \<longrightarrow> f \<noteq> [] \<and> hd f = CHR '':'') \<Longrightarrow>
   concat (map sections (gs @ [f])) = sections (concat gs @ f)"
proof (induction gs)
  case Nil then show ?case by simp
next
  case (Cons g gs)
  then have g: "g \<noteq> []" "last g = CHR '';''" by (simp_all add: unit_ok_def)
  have "\<exists>zs. concat gs @ f = CHR '':'' # zs"
  proof (cases gs)
    case Nil
    with Cons.prems show ?thesis by (cases f) auto
  next
    case (Cons h hs)
    with Cons.prems have "h \<noteq> []" "hd h = CHR '':''" by (simp_all add: unit_ok_def)
    with Cons show ?thesis by (cases h) auto
  qed
  then obtain zs where zs: "concat gs @ f = CHR '':'' # zs" by blast
  have "sections (g @ concat gs @ f) = sections g @ sections (concat gs @ f)"
    unfolding zs using g by (rule sections_append)
  moreover have ih: "concat (map sections (gs @ [f])) = sections (concat gs @ f)"
  proof (cases gs)
    case Nil then show ?thesis by simp
  next
    case (Cons h hs)
    then show ?thesis using Cons.IH Cons.prems by simp
  qed
  ultimately show ?case by simp
qed

text \<open>
  C4 (chunker content preservation). An input shorter than 1018 characters comes back as
  the single chunk \<open>*WAI;\<close> + the input stripped of leading and trailing \<open>;\<close> and
  newlines + newline. For every longer input each chunk is \<open>*WAI;\<close> + payload + newline,
  the payloads concatenated give the stripped input back, and the section lists of the
  chunks, concatenated in order, are the section list of the stripped input: every section
  once, in order.
\<close>

theorem splitInst_preserves_sections:
  "(length arg < 1018 \<longrightarrow>
      splitInst_chunks arg = [''*WAI;'' @ py_strip [CHR '';'', NL] arg @ [NL]] \<and>
      splitInst arg = ''*WAI;'' @ py_strip [CHR '';'', NL] arg @ [NL]) \<and>
   (1018 \<le> length arg \<longrightarrow>
      (\<forall>c \<in> set (splitInst_chunks arg). c = ''*WAI;'' @ payload c @ [NL]) \<and>
      concat (map payload (splitInst_chunks arg)) = py_strip [CHR '';'', NL] arg \<and>
      concat (map (\<lambda>c. sections (payload c)) (splitInst_chunks arg))
        = sections (py_strip [CHR '';'', NL] arg))"
proof (intro conjI impI)
  assume "length arg < 1018"
  then show "splitInst_chunks arg = [''*WAI;'' @ py_strip [CHR '';'', NL] arg @ [NL]]"
    by (simp add: splitInst_chunks_def)
  then show "splitInst arg = ''*WAI;'' @ py_strip [CHR '';'', NL] arg @ [NL]"
    by (simp add: splitInst_def)
next
  assume "1018 \<le> length arg"
  from splitInst_chunks_long[OF this] obtain gs f where
    ch: "splitInst_chunks arg = map wrap (gs @ [f])" and ok: "list_all unit_ok gs"
    and cat: "concat gs @ f = py_strip [CHR '';'', NL] arg"
    and f: "gs \<noteq> [] \<longrightarrow> f \<noteq> [] \<and> hd f = CHR '':''" by blast
  have mp: "map payload (splitInst_chunks arg) = gs @ [f]"
    unfolding ch by (simp add: payload_wrap comp_def)
  show "\<forall>c \<in> set (splitInst_chunks arg). c = ''*WAI;'' @ payload c @ [NL]"
    unfolding ch by (auto simp: payload_wrap) (simp_all add: wrap_def)
  show "concat (map payload (splitInst_chunks arg)) = py_strip [CHR '';'', NL] arg"
    unfolding mp using cat by simp
  have "concat (map (\<lambda>c. sections (payload c)) (splitInst_chunks arg))
        = concat (map sections (map payload (splitInst_chunks arg)))" by (simp add: comp_def)
  also have "\<dots> = sections (concat gs @ f)" unfolding mp using ok f by (rule sections_concat)
  finally show "concat (map (\<lambda>c. sections (payload c)) (splitInst_chunks arg))
        = sections (py_strip [CHR '';'', NL] arg)" using cat by simp
qed

lemma py_strip_length: "length (py_strip cs s) \<le> length s"
proof -
  have "length (py_strip cs s) \<le> length (dropWhile (\<lambda>c. c \<in> set cs) s)"
    unfolding py_strip_def by (metis length_dropWhile_le length_rev)
  also have "\<dots> \<le> length s" by (rule length_dropWhile_le)
  finally show ?thesis .
qed

text \<open>
  C3 (chunker bounds), as the code has it. Every chunk begins with \<open>*WAI;\<close> and ends
  with a newline. An input shorter than 1018 characters gives one chunk of at most 1023
  characters. A longer input is cut only where a \<open>;\<close> is followed by a \<open>:\<close>: the
  payloads concatenated are the stripped input, every chunk but the last ends with
  \<open>;\<close> and the chunk after it starts with \<open>:\<close>. The last chunk is whatever remains
  and has no bound.
\<close>

theorem splitInst_chunk_framing:
  "(\<forall>c \<in> set (splitInst_chunks arg). take 5 c = ''*WAI;'' \<and> last c = NL) \<and>
   (length arg < 1018 \<longrightarrow> (\<forall>c \<in> set (splitInst_chunks arg). length c \<le> 1023)) \<and>
   (1018 \<le> length arg \<longrightarrow>
      concat (map payload (splitInst_chunks arg)) = py_strip [CHR '';'', NL] arg) \<and>
   (\<forall>i. Suc i < length (splitInst_chunks arg) \<longrightarrow>
        last (payload (splitInst_chunks arg ! i)) = CHR '';'' \<and>
        hd (payload (splitInst_chunks arg ! Suc i)) = CHR '':'')"
proof (cases "length arg < 1018")
  case True
  then have ch: "splitInst_chunks arg = [''*WAI;'' @ py_strip [CHR '';'', NL] arg @ [NL]]"
    by (simp add: splitInst_chunks_def)
  have "length (py_strip [CHR '';'', NL] arg) \<le> 1017"
    using py_strip_length[of "[CHR '';'', NL]" arg] True by arith
  then show ?thesis using True unfolding ch by simp
next
  case False
  then have long: "1018 \<le> length arg" by simp
  from splitInst_chunks_long[OF long] obtain gs f where
    ch: "splitInst_chunks arg = map wrap (gs @ [f])" and ok: "list_all unit_ok gs"
    and cat: "concat gs @ f = py_strip [CHR '';'', NL] arg"
    and f: "gs \<noteq> [] \<longrightarrow> f \<noteq> [] \<and> hd f = CHR '':''" by blast
  have 1: "\<forall>c \<in> set (splitInst_chunks arg). take 5 c = ''*WAI;'' \<and> last c = NL"
    unfolding ch by (auto simp: wrap_def)
  have 3: "concat (map payload (splitInst_chunks arg)) = py_strip [CHR '';'', NL] arg"
    unfolding ch using cat by (simp add: payload_wrap comp_def)
  have 4: "last (payload (splitInst_chunks arg ! i)) = CHR '';'' \<and>
           hd (payload (splitInst_chunks arg ! Suc i)) = CHR '':''"
    if "Suc i < length (splitInst_chunks arg)" for i
  proof -
    from that have i: "i < length gs" by (simp add: ch)
    then have gne: "gs \<noteq> []" by auto
    have "payload (splitInst_chunks arg ! i) = gs ! i"
      using i by (simp add: ch payload_wrap nth_append)
    moreover have "unit_ok (gs ! i)" using ok i by (simp add: list_all_length)
    ultimately have a: "last (payload (splitInst_chunks arg ! i)) = CHR '';''"
      by (simp add: unit_ok_def)
    have "Suc i < length (gs @ [f])" using that by (simp add: ch)
    then have p: "payload (splitInst_chunks arg ! Suc i) = (gs @ [f]) ! Suc i"
      unfolding ch by (simp only: nth_map payload_wrap)
    have "hd ((gs @ [f]) ! Suc i) = CHR '':''"
    proof (cases "Suc i < length gs")
      case True
      then have "unit_ok (gs ! Suc i)" using ok by (simp add: list_all_length)
      with True show ?thesis by (simp add: nth_append unit_ok_def)
    next
      case False
      with i have "Suc i = length gs" by simp
      then have "(gs @ [f]) ! Suc i = f" by (metis nth_append_length)
      with f gne show ?thesis by simp
    qed
    with a p show ?thesis by simp
  qed
  show ?thesis using 1 3 4 False by blast
qed


text \<open>
  A concrete long input, evaluated: \<open>:\<close> + 1018 times \<open>A\<close> + \<open>;:B\<close>.
\<close>

lemma try_k_hit: "semi_colon_at t m \<Longrightarrow> try_k t m = Some m"
  by (cases m) simp_all

lemma re_search_boundary:
  "re_search ('';:'' @ replicate 1018 (CHR ''A'') @ '';:B;'')
     = Some ('':'' @ replicate 1018 (CHR ''A'') @ '';'', 1022)"
proof -
  define t where "t = replicate 1018 (CHR ''A'') @ '';:B;''"
  have "takeWhile (\<lambda>c. c \<noteq> NL) t
          = replicate 1018 (CHR ''A'') @ takeWhile (\<lambda>c. c \<noteq> NL) '';:B;''"
    unfolding t_def by (rule takeWhile_append2) auto
  then have dm: "dot_max t = 1018" by (simp add: dot_max_def)
  have "semi_colon_at t 1018" by (simp add: semi_colon_at_def t_def nth_append)
  then have "try_k t (dot_max t) = Some 1018" unfolding dm by (rule try_k_hit)
  moreover have "take (1018 + 2) (CHR '':'' # t) = '':'' @ replicate 1018 (CHR ''A'') @ '';''"
    by (simp add: t_def)
  ultimately have "re_search (CHR '';'' # CHR '':'' # t)
      = Some ('':'' @ replicate 1018 (CHR ''A'') @ '';'', 1022)"
    by (simp add: re_search_def)
  then show ?thesis by (simp add: t_def)
qed

lemma splitInst_chunks_boundary:
  "splitInst_chunks ('':'' @ replicate 1018 (CHR ''A'') @ '';:B'')
     = [''*WAI;:'' @ replicate 1018 (CHR ''A'') @ '';'' @ [NL], ''*WAI;:B'' @ [NL]]"
proof -
  have st: "py_strip [CHR '';'', NL] ('':'' @ replicate 1018 (CHR ''A'') @ '';:B'')
            = '':'' @ replicate 1018 (CHR ''A'') @ '';:B''"
    by (simp add: py_strip_def)
  have dr: "drop 1022 ('';:'' @ replicate 1018 (CHR ''A'') @ '';:B;'') = ''B;''" by simp
  have r2: "re_search '';:B;'' = None"
    by (simp add: re_search_def dot_max_def semi_colon_at_def)
  have sl: "split_loop ('';:'' @ replicate 1018 (CHR ''A'') @ '';:B;'') []
        = ([''*WAI;:'' @ replicate 1018 (CHR ''A'') @ '';'' @ [NL]], '';:B;'')"
    by (subst split_loop.simps, simp only: re_search_boundary option.case prod.case dr,
        subst split_loop.simps, simp add: r2)
  have fin: "py_strip '';'' '';:B;'' = '':B''" by (simp add: py_strip_def)
  show ?thesis
    unfolding splitInst_chunks_def st using sl fin by simp
qed


text \<open>
  The framing theorem at two inputs: a short one, and a long one that is cut once.
\<close>

theorem splitInst_chunk_framing_witness:
  "length '':a;:b'' < 1018 \<and> length (hd (splitInst_chunks '':a;:b'')) \<le> 1023 \<and>
   take 5 (hd (splitInst_chunks '':a;:b'')) = ''*WAI;'' \<and>
   1018 \<le> length ('':'' @ replicate 1018 (CHR ''A'') @ '';:B'') \<and>
   Suc 0 < length (splitInst_chunks ('':'' @ replicate 1018 (CHR ''A'') @ '';:B'')) \<and>
   last (payload (splitInst_chunks ('':'' @ replicate 1018 (CHR ''A'') @ '';:B'') ! 0)) = CHR '';'' \<and>
   hd (payload (splitInst_chunks ('':'' @ replicate 1018 (CHR ''A'') @ '';:B'') ! Suc 0)) = CHR '':''"
proof -
  have a: "length '':a;:b'' < 1018" by simp
  have b: "hd (splitInst_chunks '':a;:b'') \<in> set (splitInst_chunks '':a;:b'')"
    by (simp add: splitInst_chunks_def)
  have c: "1018 \<le> length ('':'' @ replicate 1018 (CHR ''A'') @ '';:B'')" by simp
  have d: "Suc 0 < length (splitInst_chunks ('':'' @ replicate 1018 (CHR ''A'') @ '';:B''))"
    unfolding splitInst_chunks_boundary by simp
  show ?thesis
    using splitInst_chunk_framing[of "'':a;:b''"] a b c d
      splitInst_chunk_framing[of "'':'' @ replicate 1018 (CHR ''A'') @ '';:B''"]
    by blast
qed

text \<open>
  C3 as stated fails: 1019 characters with no section boundary are emitted as one chunk
  of 1025 characters, since there is no place to cut.
\<close>

theorem splitInst_chunk_bound_counterexample:
  "map length (splitInst_chunks (replicate 1019 (CHR ''A''))) = [1025] \<and>
   \<not> length (hd (splitInst_chunks (replicate 1019 (CHR ''A'')))) \<le> 1024"
  by code_simp

text \<open>
  The pattern allows 1018 characters between the leading \<open>:\<close> and the closing \<open>;\<close>
  of group 1, so a chunk that was cut at a boundary can reach 5 + 1020 + 1 = 1026
  characters, two more than the 1024 of the docstring.
\<close>

lemma splitInst_group_overshoot:
  "map length (splitInst_chunks ('':'' @ replicate 1018 (CHR ''A'') @ '';:B'')) = [1026, 8]"
  unfolding splitInst_chunks_boundary by simp

text \<open>
  Content preservation at a short input and at a long input that is cut once.
\<close>

theorem splitInst_preserves_sections_witness:
  "length '':a;:b'' < 1018 \<and> splitInst '':a;:b'' = ''*WAI;'' @ '':a;:b'' @ [NL] \<and>
   1018 \<le> length ('':'' @ replicate 1018 (CHR ''A'') @ '';:B'') \<and>
   concat (map (\<lambda>c. sections (payload c))
       (splitInst_chunks ('':'' @ replicate 1018 (CHR ''A'') @ '';:B'')))
     = sections ('':'' @ replicate 1018 (CHR ''A'') @ '';:B'') \<and>
   hd (splitInst_chunks ('':'' @ replicate 1018 (CHR ''A'') @ '';:B''))
     = ''*WAI;'' @ payload (hd (splitInst_chunks ('':'' @ replicate 1018 (CHR ''A'') @ '';:B''))) @ [NL]"
proof -
  have a: "length '':a;:b'' < 1018" by simp
  have s1: "py_strip [CHR '';'', NL] '':a;:b'' = '':a;:b''" by (simp add: py_strip_def)
  have c: "1018 \<le> length ('':'' @ replicate 1018 (CHR ''A'') @ '';:B'')" by simp
  have s2: "py_strip [CHR '';'', NL] ('':'' @ replicate 1018 (CHR ''A'') @ '';:B'')
            = '':'' @ replicate 1018 (CHR ''A'') @ '';:B''" by (simp add: py_strip_def)
  have d: "hd (splitInst_chunks ('':'' @ replicate 1018 (CHR ''A'') @ '';:B''))
           \<in> set (splitInst_chunks ('':'' @ replicate 1018 (CHR ''A'') @ '';:B''))"
    unfolding splitInst_chunks_boundary by simp
  show ?thesis
    using splitInst_preserves_sections[of "'':a;:b''"] a c d
      splitInst_preserves_sections[of "'':'' @ replicate 1018 (CHR ''A'') @ '';:B''"]
    unfolding s1 s2 by blast
qed

section \<open>The runtime the program talks to\<close>

text \<open>
  Exceptions are values: an operation returns \<open>Inl e\<close> where the Python raises \<open>e\<close> and
  \<open>Inr v\<close> where it returns \<open>v\<close>, together with the state it leaves behind.
  \<open>VisaIOError\<close> is \<open>pyvisa.errors.VisaIOError\<close> (a timeout of the transport).
\<close>

datatype exn = VisaIOError | ValueError | AttributeError

type_synonym byte = char

text \<open>
  Python compares a \<open>bytes\<close> object and a \<open>str\<close> object as unequal, whatever they
  hold. \<open>pyval\<close> keeps the two apart where the source compares them.
\<close>

datatype pyval = Bytes "byte list" | Str string

definition py_eq :: "pyval \<Rightarrow> pyval \<Rightarrow> bool" where
  "py_eq a b \<longleftrightarrow> a = b"

text \<open>Slot files \<open>DL74x0-<n>.dat\<close> and the backup file \<open>DL74x0-bkup.dat\<close>.\<close>

datatype fname = Dat int | Bkup

text \<open>The texts passed to \<open>notification.notify\<close>.\<close>

datatype notice =
    NotFound fname      \<comment> \<open>\<open>f'{file} not found.'\<close>\<close>
  | Saved               \<comment> \<open>\<open>'saved.'\<close>\<close>
  | Loaded              \<comment> \<open>\<open>'loaded.'\<close>\<close>
  | NoLrn               \<comment> \<open>\<open>'no response for *LRN command. Aborted.'\<close> (the source quotes \<open>*LRN\<close>)\<close>
  | NoResponse          \<comment> \<open>\<open>'no response from the oscilloscope. Aborted.'\<close>\<close>

text \<open>
  A VISA resource answers queries: \<open>answers\<close> maps a query text to the reply line; a query
  that is not listed times out. An opened resource is a \<open>transport\<close>, the object that
  \<open>rm.open_resource\<close> returns, with its session handle and its \<open>timeout\<close> attribute.
  Its other attributes (\<open>write_termination\<close>, \<open>read_termination\<close>, \<open>delay\<close>,
  \<open>term_char\<close>) are set by \<open>connect\<close> and read by nothing in the program; they are left
  out.
\<close>

type_synonym resource = "(string \<times> string) list"

record transport =
  handle :: nat
  res :: resource
  timeout :: int

text \<open>
  The world outside the two Python objects.
  \<^item> \<open>visa_list\<close>: what \<open>rm.list_resources('USB?*')\<close> returns, in order;
  \<^item> \<open>managers\<close>, \<open>opened\<close>: the open resource managers and the open instrument
    sessions (handle, manager). A session leaves \<open>opened\<close> only by a \<open>close()\<close> that the
    program calls, on it or on its manager; finalisers run by the Python runtime on
    dropped objects are not modelled;
  \<^item> \<open>wfail\<close>: the outcomes of the coming \<open>inst.write\<close> calls (\<open>True\<close>: the call raises
    VisaIOError); when it is used up, writes succeed. \<open>writes\<close>: the calls of
    \<open>inst.write\<close> in order, each as the \<open>timeout\<close> attribute in force and the text;
  \<^item> \<open>rx\<close>: the bytes the instrument will deliver to \<open>read_bytes\<close>;
  \<^item> \<open>files\<close>: slot and backup files as a key to content store; \<open>tmpfiles\<close>: the files
    made by \<open>tempfile.mkstemp\<close>; \<open>notified\<close>: the notifications shown, in order.
\<close>

record world =
  visa_list :: "resource list"
  next_id :: nat
  managers :: "nat list"
  opened :: "(nat \<times> nat) list"
  default_timeout :: int
  wfail :: "bool list"
  writes :: "(int \<times> string) list"
  rx :: "byte list"
  files :: "fname \<rightharpoonup> string"
  tmpfiles :: "byte list list"
  notified :: "notice list"

definition query :: "transport \<Rightarrow> string \<Rightarrow> string option" where
  \<comment> \<open>\<open>dev.query(msg)\<close>: the reply line, or \<open>None\<close> where the query raises\<close>
  "query dev msg = map_of (res dev) msg"


text \<open>
  \<open>inst.read_bytes(count)\<close> reads until it has \<open>count\<close> bytes, so a count of zero or
  less returns \<open>b''\<close> at once; when the instrument has fewer bytes to give the read times
  out, and what had arrived is gone.
\<close>

definition read_bytes :: "int \<Rightarrow> world \<Rightarrow> (exn + byte list) \<times> world" where
  "read_bytes count w =
     (if count \<le> 0 then (Inr [], w)
      else if int (length (rx w)) < count then (Inl VisaIOError, w\<lparr>rx := []\<rparr>)
      else (Inr (take (nat count) (rx w)), w\<lparr>rx := drop (nat count) (rx w)\<rparr>))"

subsection \<open>int() on bytes\<close>

text \<open>
  \<open>int(b)\<close>: surrounding ASCII white space is dropped, one sign is allowed, then decimal
  digits with single underscores between digits; anything else is a ValueError.
\<close>

definition is_space :: "char \<Rightarrow> bool" where
  "is_space c \<longleftrightarrow> (9 \<le> (of_char c :: nat) \<and> (of_char c :: nat) \<le> 13) \<or> c = CHR '' ''"

definition is_digit :: "char \<Rightarrow> bool" where
  "is_digit c \<longleftrightarrow> 48 \<le> (of_char c :: nat) \<and> (of_char c :: nat) \<le> 57"

fun parse_digits :: "string \<Rightarrow> bool \<Rightarrow> nat \<Rightarrow> nat option" where
  "parse_digits [] after_digit acc = (if after_digit then Some acc else None)"
| "parse_digits (c # cs) after_digit acc =
     (if is_digit c then parse_digits cs True (acc * 10 + (of_char c - 48))
      else if c = CHR ''_'' \<and> after_digit \<and> cs \<noteq> [] \<and> is_digit (hd cs)
        then parse_digits cs False acc
      else None)"

definition py_int :: "byte list \<Rightarrow> int option" where
  "py_int b =
     (let t = rev (dropWhile is_space (rev (dropWhile is_space b)))
      in case t of
           [] \<Rightarrow> None
         | c # cs \<Rightarrow>
             if c = CHR ''-'' then map_option (\<lambda>n. - int n) (parse_digits cs False 0)
             else if c = CHR ''+'' then map_option int (parse_digits cs False 0)
             else map_option int (parse_digits t False 0))"

section \<open>class YokogawaDL7480\<close>

record session =
  rm :: "nat option"
  inst :: "transport option"
  devname :: string
  opt :: string

text \<open>
  \<open>self.inst.write(msg)\<close>. On a session without instrument the attribute lookup on
  \<open>None\<close> raises AttributeError.
\<close>

definition inst_write :: "session \<Rightarrow> string \<Rightarrow> world \<Rightarrow> (exn + unit) \<times> world" where
  "inst_write s msg w =
     (case inst s of
        None \<Rightarrow> (Inl AttributeError, w)
      | Some t \<Rightarrow>
          (case wfail w of
             [] \<Rightarrow> (Inr (), w\<lparr>writes := writes w @ [(timeout t, msg)]\<rparr>)
           | f # fs \<Rightarrow> (if f then Inl VisaIOError else Inr (),
                       w\<lparr>wfail := fs, writes := writes w @ [(timeout t, msg)]\<rparr>)))"

definition init_session :: session where
  \<comment> \<open>\<open>__init__\<close>, lines 330-334\<close>
  "init_session = \<lparr>rm = None, inst = None, devname = [], opt = []\<rparr>"

definition close_handle :: "nat \<Rightarrow> world \<Rightarrow> world" where
  \<comment> \<open>\<open>inst.before_close(); inst.close()\<close>\<close>
  "close_handle h w = w\<lparr>opened := filter (\<lambda>(h', m). h' \<noteq> h) (opened w)\<rparr>"

definition close_manager :: "nat \<Rightarrow> world \<Rightarrow> world" where
  \<comment> \<open>\<open>rm.close()\<close>: closing a resource manager closes the sessions opened with it\<close>
  "close_manager m w =
     w\<lparr>managers := filter (\<lambda>m'. m' \<noteq> m) (managers w),
       opened := filter (\<lambda>(h, m'). m' \<noteq> m) (opened w)\<rparr>"

definition del_session :: "session \<times> world \<Rightarrow> session \<times> world" where
  \<comment> \<open>\<open>__del__\<close>, lines 337-347\<close>
  "del_session sw =
     (let (s, w) = sw;
          (s1, w1) = (case inst s of
                        None \<Rightarrow> (s, w)
                      | Some t \<Rightarrow> (s\<lparr>inst := None, devname := [], opt := []\<rparr>,
                                  close_handle (handle t) w));
          (s2, w2) = (case rm s1 of
                        None \<Rightarrow> (s1, w1)
                      | Some m \<Rightarrow> (s1\<lparr>rm := None\<rparr>, close_manager m w1))
      in (s2, w2))"

definition closeinst :: "session \<times> world \<Rightarrow> session \<times> world" where
  \<comment> \<open>lines 583-591\<close>
  "closeinst sw =
     (let (s, w) = sw;
          (s1, w1) = (case inst s of
                        None \<Rightarrow> (s, w)
                      | Some t \<Rightarrow> (s\<lparr>inst := None\<rparr>, close_handle (handle t) w));
          (s2, w2) = (case rm s1 of
                        None \<Rightarrow> (s1, w1)
                      | Some m \<Rightarrow> (s1\<lparr>rm := None\<rparr>, close_manager m w1))
      in (s2, w2))"

subsection \<open>connect (lines 349-399)\<close>

definition idn_match :: "string \<Rightarrow> string \<Rightarrow> bool" where
  \<comment> \<open>\<open>re.match(r'YOKOGAWA,7014[xy]0', idn)\<close> with \<open>xy\<close> the two digits allowed\<close>
  "idn_match xy idn \<longleftrightarrow>
     take 13 idn = ''YOKOGAWA,7014'' \<and>
     (case drop 13 idn of a # b # _ \<Rightarrow> a \<in> set xy \<and> b = CHR ''0'' | _ \<Rightarrow> False)"

definition py_space :: "char \<Rightarrow> bool" where
  \<comment> \<open>the characters \<open>str.strip()\<close> removes\<close>
  "py_space c \<longleftrightarrow> is_space c \<or> (28 \<le> (of_char c :: nat) \<and> (of_char c :: nat) \<le> 31)
      \<or> (of_char c :: nat) = 133 \<or> (of_char c :: nat) = 160"

definition strip_ws :: "string \<Rightarrow> string" where
  "strip_ws s = rev (dropWhile py_space (rev (dropWhile py_space s)))"

definition bind_inst :: "string \<Rightarrow> transport \<Rightarrow> session \<times> world \<Rightarrow> (exn + unit) \<times> session \<times> world" where
  \<comment> \<open>lines 375-382 and 385-392: the body of a successful match\<close>
  "bind_inst name dev sw =
     (let (s, w) = sw;
          t = dev\<lparr>timeout := 5000\<rparr>;
          s1 = s\<lparr>devname := name, inst := Some t\<rparr>
      in case query t ''*OPT?;'' of
           None \<Rightarrow> (Inl VisaIOError, s1, w)
         | Some r \<Rightarrow> (Inr (), s1\<lparr>opt := strip_ws r\<rparr>, w))"

text \<open>
  The \<open>for src in visa_list\<close> loop; \<open>m\<close> is the resource manager made by this call.
  A candidate whose \<open>*IDN?;\<close> query raises, or whose reply matches neither pattern, is
  left as it is and the loop goes on; a match ends the loop (\<open>break\<close>). The \<open>*OPT?;\<close>
  query stands outside the \<open>try\<close>, so its exception leaves \<open>connect\<close>.
\<close>

fun scan :: "nat \<Rightarrow> resource list \<Rightarrow> session \<times> world \<Rightarrow> (exn + unit) \<times> session \<times> world" where
  "scan m [] sw = (Inr (), sw)"
| "scan m (src # rest) sw =
     (let (s, w) = sw in
      if inst s = None then
        (let h = next_id w;
             w1 = w\<lparr>next_id := h + 1, opened := opened w @ [(h, m)]\<rparr>;
             dev = \<lparr>handle = h, res = src, timeout = default_timeout w\<rparr>
         in case query dev ''*IDN?;'' of
              None \<Rightarrow> scan m rest (s, w1)
            | Some idn \<Rightarrow>
                if idn_match ''56'' idn then bind_inst ''DL7440'' dev (s, w1)
                else if idn_match ''78'' idn then bind_inst ''DL7480'' dev (s, w1)
                else scan m rest (s, w1))
      else scan m rest (s, w))"

definition connect :: "session \<times> world \<Rightarrow> (exn + bool) \<times> session \<times> world" where
  "connect sw =
     (let (s, w) = sw in
      if inst s \<noteq> None then (Inr True, s, w)
      else
        (let m = next_id w;
             w1 = w\<lparr>next_id := m + 1, managers := managers w @ [m]\<rparr>;
             s1 = s\<lparr>rm := Some m\<rparr>
         in case scan m (visa_list w1) (s1, w1) of
              (Inl e, s2, w2) \<Rightarrow> (Inl e, s2, w2)
            | (Inr _, s2, w2) \<Rightarrow>
                if inst s2 = None then (Inr False, s2, w2) else (Inr True, s2, w2)))"

subsection \<open>setconfig (lines 594-623)\<close>

definition setconfig :: "string \<Rightarrow> session \<times> world \<Rightarrow> (exn + bool) \<times> session \<times> world" where
  "setconfig arg sw =
     (case (if inst (fst sw) = None then connect sw else (Inr True, sw)) of
        (Inl e, s, w) \<Rightarrow> (Inl e, s, w)
      | (Inr _, s, w) \<Rightarrow>
          (case inst s of
             None \<Rightarrow> (Inr False, s, w)
           | Some t \<Rightarrow>
               (let saved = timeout t;
                    s1 = s\<lparr>inst := Some (t\<lparr>timeout := 20000\<rparr>)\<rparr>
                in case inst_write s1 arg w of
                     (Inr _, w1) \<Rightarrow> (Inr True, s1\<lparr>inst := Some (t\<lparr>timeout := saved\<rparr>)\<rparr>, w1)
                   | (Inl VisaIOError, w1) \<Rightarrow>
                       (case inst_write s1 ''*CLS'' w1 of
                          (Inl e, w2) \<Rightarrow> (Inl e, s1, w2)
                        | (Inr _, w2) \<Rightarrow>
                            (Inr False, s1\<lparr>inst := Some (t\<lparr>timeout := saved\<rparr>)\<rparr>, w2))
                   | (Inl e, w1) \<Rightarrow> (Inl e, s1, w1))))"

subsection \<open>capture (lines 416-489)\<close>

fun write_all :: "session \<Rightarrow> string list \<Rightarrow> world \<Rightarrow> (exn + unit) \<times> world" where
  "write_all s [] w = (Inr (), w)"
| "write_all s (m # ms) w =
     (case inst_write s m w of
        (Inl e, w1) \<Rightarrow> (Inl e, w1)
      | (Inr _, w1) \<Rightarrow> write_all s ms w1)"

text \<open>
  The first \<open>try\<close> block (lines 439-449): the block-start byte, one more byte when the
  first is not \<open>#\<close>, the digit count, the length field. The result is \<open>nbyte\<close>.
\<close>

definition read_header :: "world \<Rightarrow> (exn + int) \<times> world" where
  "read_header w =
     (case read_bytes 1 w of
        (Inl e, w1) \<Rightarrow> (Inl e, w1)
      | (Inr shash, w1) \<Rightarrow>
     (case (if shash \<noteq> ''#'' then read_bytes 1 w1 else (Inr shash, w1)) of
        (Inl e, w2) \<Rightarrow> (Inl e, w2)
      | (Inr _, w2) \<Rightarrow>
     (case read_bytes 1 w2 of
        (Inl e, w3) \<Rightarrow> (Inl e, w3)
      | (Inr sdigit, w3) \<Rightarrow>
     (case py_int sdigit of
        None \<Rightarrow> (Inl ValueError, w3)
      | Some ndigit \<Rightarrow>
     (case read_bytes ndigit w3 of
        (Inl e, w4) \<Rightarrow> (Inl e, w4)
      | (Inr sbyte, w4) \<Rightarrow>
     (case py_int sbyte of
        None \<Rightarrow> (Inl ValueError, w4)
      | Some nbyte \<Rightarrow> (Inr nbyte, w4)))))))"

text \<open>
  The second \<open>try\<close> block (lines 458-463). \<open>d0\<close> is a \<open>bytes\<close> object and is compared
  with the \<open>str\<close> literal \<open>'\n'\<close>.
\<close>

definition read_data :: "int \<Rightarrow> world \<Rightarrow> (exn + byte list) \<times> world" where
  "read_data nbyte w =
     (case read_bytes 1 w of
        (Inl e, w1) \<Rightarrow> (Inl e, w1)
      | (Inr d0, w1) \<Rightarrow>
     (case (if py_eq (Bytes d0) (Str [NL]) then read_bytes nbyte w1
            else (case read_bytes (nbyte - 1) w1 of
                    (Inl e, w2) \<Rightarrow> (Inl e, w2)
                  | (Inr r, w2) \<Rightarrow> (Inr (d0 @ r), w2))) of
        (Inl e, w2) \<Rightarrow> (Inl e, w2)
      | (Inr data, w2) \<Rightarrow>
     (case read_bytes 1 w2 of
        (Inl e, w3) \<Rightarrow> (Inl e, w3)
      | (Inr dmy, w3) \<Rightarrow> (Inr data, w3))))"

datatype capmsg = Msg string | TmpFile nat

definition set_timeout :: "int \<Rightarrow> session \<Rightarrow> session" where
  \<comment> \<open>\<open>self.inst.timeout = v\<close> on a connected session\<close>
  "set_timeout v s = s\<lparr>inst := map_option (\<lambda>t. t\<lparr>timeout := v\<rparr>) (inst s)\<rparr>"

text \<open>
  On success the image bytes are written to a fresh temporary file and its name is
  returned: \<open>TmpFile i\<close> is the \<open>i\<close>-th entry of \<open>tmpfiles\<close>.
\<close>

definition capture :: "session \<times> world \<Rightarrow> (exn + bool \<times> capmsg) \<times> session \<times> world" where
  "capture sw =
     (case connect sw of
        (Inl e, s, w) \<Rightarrow> (Inl e, s, w)
      | (Inr False, s, w) \<Rightarrow> (Inr (False, Msg ''Oscilloscope not found''), s, w)
      | (Inr True, s, w) \<Rightarrow>
     (case write_all s [''*CLS;;'', '':IMAGe:FORMat JPEG;'', '':IMAGe:TONE COLor;'',
                      '':STOP;*WAI;''] w of
        (Inl e, w1) \<Rightarrow> (Inl e, s, w1)
      | (Inr _, w1) \<Rightarrow>
     (let s1 = set_timeout 10000 s in
      case inst_write s1 '':IMAGe:SEND?;'' w1 of
        (Inl e, w2) \<Rightarrow> (Inl e, s1, w2)
      | (Inr _, w2) \<Rightarrow>
     (case read_header w2 of
        (Inl e, w3) \<Rightarrow>
          (case inst_write s1 ''*CLS'' w3 of
             (Inl e', w4) \<Rightarrow> (Inl e', s1, w4)
           | (Inr _, w4) \<Rightarrow>
               (Inr (False, Msg ''response from oscilloscope is unexpected. Aborted.''), s1, w4))
      | (Inr nbyte, w3) \<Rightarrow>
     (case read_data nbyte w3 of
        (Inl e, w4) \<Rightarrow> (Inr (False, Msg ''timeout during capturing''), s1, w4)
      | (Inr data, w4) \<Rightarrow>
     (case inst_write s1 ''*WAI;*CLS;'' w4 of
        (Inl e, w5) \<Rightarrow> (Inl e, s1, w5)
      | (Inr _, w5) \<Rightarrow>
          (Inr (True, TmpFile (length (tmpfiles w5))), s1,
           w5\<lparr>tmpfiles := tmpfiles w5 @ [data]\<rparr>)))))))"

subsection \<open>getopt (lines 402-414)\<close>

definition py_upper :: "char \<Rightarrow> char" where
  \<comment> \<open>\<open>str.upper()\<close> on an ASCII character; option tokens and the instrument's option
      string are ASCII, letters outside ASCII are not modelled\<close>
  "py_upper c = (if 97 \<le> (of_char c :: nat) \<and> (of_char c :: nat) \<le> 122
                 then char_of ((of_char c :: nat) - 32) else c)"

fun contains :: "string \<Rightarrow> string \<Rightarrow> bool" where
  \<comment> \<open>\<open>a in b\<close> on strings\<close>
  "contains a [] = (a = [])"
| "contains a (c # cs) = (take (length a) (c # cs) = a \<or> contains a cs)"

definition getopt :: "string \<Rightarrow> session \<Rightarrow> bool" where
  "getopt arg s =
     (if inst s = None then False
      else if contains (map py_upper arg) (map py_upper (opt s)) then True else False)"

subsection \<open>getconfig (lines 491-562)\<close>

text \<open>
  \<open>re.sub(p + r'.+?;[:\n]', repl, s)\<close> for a literal prefix \<open>p\<close> that may hold
  \<open>\d\<close>. After the prefix the lazy \<open>.+?\<close> takes at least one character other than
  newline and as few as possible, up to the first \<open>;\<close> that is followed by \<open>:\<close> or
  newline (\<open>lazy_tail\<close>: the length of that tail). Matches are replaced from left to
  right and do not overlap.
\<close>

datatype pat = Lit char | Digit

fun pat_match :: "pat list \<Rightarrow> string \<Rightarrow> string option" where
  "pat_match [] s = Some s"
| "pat_match (p # ps) [] = None"
| "pat_match (Lit a # ps) (c # cs) = (if c = a then pat_match ps cs else None)"
| "pat_match (Digit # ps) (c # cs) = (if is_digit c then pat_match ps cs else None)"

fun lazy_scan :: "string \<Rightarrow> nat \<Rightarrow> nat option" where
  "lazy_scan (a # b # cs) n =
     (if a = CHR '';'' \<and> (b = CHR '':'' \<or> b = NL) then Some (n + 2)
      else if a = NL then None
      else lazy_scan (b # cs) (Suc n))"
| "lazy_scan cs n = None"

definition lazy_tail :: "string \<Rightarrow> nat option" where
  "lazy_tail s = (case s of [] \<Rightarrow> None | c # cs \<Rightarrow> if c = NL then None else lazy_scan cs 1)"

definition match_at :: "pat list \<Rightarrow> string \<Rightarrow> nat option" where
  "match_at p s =
     (case pat_match p s of
        None \<Rightarrow> None
      | Some rest \<Rightarrow> map_option (\<lambda>k. length p + k) (lazy_tail rest))"

text \<open>\<open>skip\<close> counts the characters of the last match that are still to be passed over.\<close>

fun re_sub_from :: "pat list \<Rightarrow> string \<Rightarrow> nat \<Rightarrow> string \<Rightarrow> string" where
  "re_sub_from p repl skip [] = []"
| "re_sub_from p repl (Suc n) (c # cs) = re_sub_from p repl n cs"
| "re_sub_from p repl 0 (c # cs) =
     (case match_at p (c # cs) of
        Some len \<Rightarrow> repl @ re_sub_from p repl (len - 1) cs
      | None \<Rightarrow> c # re_sub_from p repl 0 cs)"

definition re_sub :: "pat list \<Rightarrow> string \<Rightarrow> string \<Rightarrow> string" where
  "re_sub p repl s = re_sub_from p repl 0 s"

definition ask :: "transport \<Rightarrow> string \<Rightarrow> exn + string" where
  \<comment> \<open>\<open>self.inst.query(msg)\<close>\<close>
  "ask t msg = (case query t msg of None \<Rightarrow> Inl VisaIOError | Some r \<Rightarrow> Inr r)"

definition bnd :: "exn + 'a \<Rightarrow> ('a \<Rightarrow> exn + 'b) \<Rightarrow> exn + 'b" where
  \<comment> \<open>run the rest unless an exception was raised\<close>
  "bnd m f = (case m of Inl e \<Rightarrow> Inl e | Inr v \<Rightarrow> f v)"

fun ask_chans :: "transport \<Rightarrow> string list \<Rightarrow> string \<Rightarrow> exn + string" where
  \<comment> \<open>\<open>chan = chan + '*WAI;' + self.inst.query(q).strip() + ';\n'\<close>, for each \<open>q\<close> in turn\<close>
  "ask_chans t [] chan = Inr chan"
| "ask_chans t (q # qs) chan =
     bnd (ask t q) (\<lambda>r. ask_chans t qs (chan @ ''*WAI;'' @ strip_ws r @ '';'' @ [NL]))"

definition config_text :: "session \<Rightarrow> transport \<Rightarrow> exn + string" where
  \<comment> \<open>lines 508-562, the branch with an instrument\<close>
  "config_text s t =
     bnd (ask t '':ACQuire?'') (\<lambda>r.
     let acqu = ''*WAI;'' @ strip_ws r @ '';'' @ [NL] in
     bnd (ask_chans t ['':CHANnel1?'', '':CHANnel2?'', '':CHANnel3?'', '':CHANnel4?''] []) (\<lambda>chan4.
     bnd (if devname s = ''DL7480''
          then ask_chans t ['':CHANnel5?'', '':CHANnel6?'', '':CHANnel7?'', '':CHANnel8?''] chan4
          else Inr chan4) (\<lambda>chan.
     bnd (ask t '':CURSor?'') (\<lambda>r.
     let curs = splitInst r in
     bnd (ask t '':DISPlay?'') (\<lambda>r.
     let disp = splitInst
           (if getopt ''LOGIC'' s = False
            then py_strip '':'' (re_sub (map Lit '':DISPLAY:RGB:WAVEFORM:POD'') '':'' r)
            else r) in
     bnd (ask t '':MATH?'') (\<lambda>r.
     let math = splitInst
           (if getopt ''USERDEFINE'' s = False
            then py_strip '':'' (re_sub (map Lit '':MATH'' @ [Digit] @ map Lit '':USERDEFINE:'') '':'' r)
            else r) in
     bnd (ask t '':MEASure?'') (\<lambda>r.
     let meas = splitInst r in
     bnd (ask t '':SEARch?'') (\<lambda>r.
     let sear0 = ''*WAI;'' @ r;
         sear = splitInst
           (if getopt ''LOGIC'' s = False
            then py_strip '':''
                   (re_sub (map Lit '':SEARCH:SPI:ANALYZE:SETUP:CS:LOGIC:'') '':''
                     (re_sub (map Lit '':SEARCH:SPATTERN:BIT:'') '':''
                       (re_sub (map Lit '':SEARCH:PPATTERN:LOGIC:'') '':'' sear0)))
            else sear0) in
     bnd (ask t '':PHASe?'') (\<lambda>r.
     let phas = splitInst r in
     bnd (ask t '':TIMebase?'') (\<lambda>r.
     let tbas = splitInst r in
     bnd (ask t '':TRIGger?'') (\<lambda>r.
     let trig = re_sub (map Lit '':TRIG:CAN:'') '';'' (splitInst r) in
     bnd (ask t '':ZOOM?'') (\<lambda>r.
     let zoom0 = ''*WAI;'' @ r;
         zoom = splitInst
           (if getopt ''LOGIC'' s = False
            then py_strip '':'' (re_sub (map Lit '':ZOOM:ALLOCATION:POD'') '':'' zoom0)
            else zoom0) in
     Inr ('':STOP;'' @ [NL] @ acqu @ '';'' @ [NL] @ chan @ '';'' @ [NL] @ curs @ '';'' @ [NL]
          @ disp @ '';'' @ [NL] @ math @ '';'' @ [NL] @ meas @ '';'' @ [NL] @ sear @ '';'' @ [NL]
          @ phas @ '';'' @ [NL] @ tbas @ '';'' @ [NL] @ trig @ [NL] @ zoom @ '';'' @ [NL])))))))))))))"

definition getconfig :: "session \<times> world \<Rightarrow> (exn + bool \<times> string) \<times> session \<times> world" where
  "getconfig sw =
     (case (if inst (fst sw) = None then connect sw else (Inr True, sw)) of
        (Inl e, s, w) \<Rightarrow> (Inl e, s, w)
      | (Inr _, s, w) \<Rightarrow>
          (case inst s of
             None \<Rightarrow> (Inr (False, []), s, w)
           | Some t \<Rightarrow>
               (case config_text s t of
                  Inl e \<Rightarrow> (Inl e, s, w)
                | Inr txt \<Rightarrow> (Inr (True, txt), s, w))))"

section \<open>class Gui\<close>

text \<open>
  The fields of the window object that the save, load and undo operations use. Python
  creates an attribute at its first assignment: \<open>saveid\<close> and \<open>lastSavedID\<close> (capital
  D) do not exist until assigned, \<open>lastSavedId\<close> is set by \<open>__init__\<close>. The two undo
  buttons are kept as their \<open>state\<close> option.
\<close>

record gui =
  dl7480 :: session
  status :: string
  lastSavedId :: int
  saveid :: "int option"
  lastSavedID :: "int option"
  btnUndoSave :: string
  btnUndoLoad :: string

definition init_gui :: gui where
  \<comment> \<open>\<open>__init__\<close>, lines 74-119\<close>
  "init_gui = \<lparr>dl7480 = init_session, status = ''init'', lastSavedId = - 1,
                saveid = None, lastSavedID = None,
                btnUndoSave = ''disabled'', btnUndoLoad = ''disabled''\<rparr>"

definition setStatus :: "string \<Rightarrow> gui \<Rightarrow> gui" where
  "setStatus arg g =
     (if arg = ''init'' then g\<lparr>status := ''init''\<rparr>
      else if arg = ''connected'' then g\<lparr>status := ''connected''\<rparr>
      else g\<lparr>status := ''failed''\<rparr>)"

definition getStatus :: "gui \<Rightarrow> string \<times> gui" where
  "getStatus g =
     (if status g = ''init'' then (''init'', g)
      else if status g = ''connected'' then (''connected'', g)
      else (''failed'', g\<lparr>status := ''failed''\<rparr>))"

definition notify :: "notice \<Rightarrow> world \<Rightarrow> world" where
  "notify n w = w\<lparr>notified := notified w @ [n]\<rparr>"

definition path_exists :: "fname \<Rightarrow> world \<Rightarrow> bool" where
  "path_exists f w \<longleftrightarrow> files w f \<noteq> None"

definition shutil_move :: "fname \<Rightarrow> fname \<Rightarrow> world \<Rightarrow> world" where
  \<comment> \<open>\<open>shutil.move(src, dst)\<close> of an existing file onto a file name\<close>
  "shutil_move src dst w = w\<lparr>files := (files w)(dst := files w src, src := None)\<rparr>"

definition shutil_copy :: "fname \<Rightarrow> fname \<Rightarrow> world \<Rightarrow> world" where
  "shutil_copy src dst w = w\<lparr>files := (files w)(dst := files w src)\<rparr>"

definition write_file :: "fname \<Rightarrow> string \<Rightarrow> world \<Rightarrow> world" where
  \<comment> \<open>\<open>with open(f, mode='w') as fp: fp.write(text)\<close>\<close>
  "write_file f text w = w\<lparr>files := (files w)(f \<mapsto> text)\<rparr>"

definition shutil_remove :: "fname \<Rightarrow> world \<Rightarrow> (exn + unit) \<times> world" where
  \<comment> \<open>The module \<open>shutil\<close> has no attribute \<open>remove\<close> (files are removed by
      \<open>os.remove\<close>): evaluating \<open>shutil.remove\<close> raises AttributeError.\<close>
  "shutil_remove f w = (Inl AttributeError, w)"

fun universal_newlines :: "string \<Rightarrow> string" where
  \<comment> \<open>reading in text mode: \<open>\r\n\<close> and a lone \<open>\r\<close> arrive as \<open>\n\<close>\<close>
  "universal_newlines [] = []"
| "universal_newlines [c] = [if c = CHR 0x0D then NL else c]"
| "universal_newlines (c # d # cs) =
     (if c = CHR 0x0D then
        (if d = NL then NL # universal_newlines cs else NL # universal_newlines (d # cs))
      else c # universal_newlines (d # cs))"

fun split_lines :: "string \<Rightarrow> string list" where
  \<comment> \<open>the lines of a text, each with its newline\<close>
  "split_lines [] = []"
| "split_lines (c # cs) =
     (if c = NL then [c] # split_lines cs
      else (case split_lines cs of [] \<Rightarrow> [[c]] | l # ls \<Rightarrow> (c # l) # ls))"

definition py_lines :: "string \<Rightarrow> string list" where
  \<comment> \<open>\<open>for line in fp\<close> on a file opened with \<open>open(f, 'r')\<close>\<close>
  "py_lines text = split_lines (universal_newlines text)"

fun send_lines :: "string list \<Rightarrow> session \<times> world \<Rightarrow> (exn + unit) \<times> session \<times> world" where
  \<comment> \<open>\<open>for line in fp: self.dl7480.setconfig(line)\<close>; the result of setconfig is not used\<close>
  "send_lines [] sw = (Inr (), sw)"
| "send_lines (l # ls) sw =
     (case setconfig l sw of
        (Inl e, sw1) \<Rightarrow> (Inl e, sw1)
      | (Inr _, sw1) \<Rightarrow> send_lines ls sw1)"

subsection \<open>undoSave (lines 139-148) and undoLoad (lines 151-164)\<close>

text \<open>
  \<open>if os.path.exists(f): with open(f, 'r') as fp: ...\<close> is a case on the file store:
  \<open>Some text\<close> where the file exists.
\<close>

definition undoSave :: "gui \<times> world \<Rightarrow> gui \<times> world" where
  "undoSave gw =
     (let (g, w) = gw in
      if lastSavedId g > 0 then
        (let w1 = (if path_exists Bkup w then shutil_move Bkup (Dat (lastSavedId g)) w else w)
         in (g\<lparr>lastSavedID := Some (- 1), btnUndoSave := ''disabled''\<rparr>, w1))
      else (g, w))"

definition undoLoad :: "int \<Rightarrow> gui \<times> world \<Rightarrow> (exn + unit) \<times> gui \<times> world" where
  "undoLoad arg gw =
     (let (g, w) = gw in
      case files w Bkup of
        Some text \<Rightarrow>
          (case send_lines (py_lines text) (dl7480 g, w) of
             (Inl e, s, w1) \<Rightarrow> (Inl e, g\<lparr>dl7480 := s\<rparr>, w1)
           | (Inr _, s, w1) \<Rightarrow>
               (case shutil_remove Bkup w1 of
                  (Inl e, w2) \<Rightarrow> (Inl e, g\<lparr>dl7480 := s\<rparr>, w2)
                | (Inr _, w2) \<Rightarrow> (Inr (), g\<lparr>dl7480 := s, btnUndoLoad := ''disabled''\<rparr>, w2)))
      | None \<Rightarrow> (Inr (), g, notify (NotFound Bkup) w))"

subsection \<open>saveconfig (lines 167-206) and loadconfig (lines 209-259)\<close>

text \<open>
  Both return an \<open>int\<close>; \<open>None\<close> stands for falling off the end of the function, which
  Python returns as \<open>None\<close> (the \<open>if self.getStatus() == 'connected'\<close> without else).
\<close>

definition saveconfig :: "int \<Rightarrow> gui \<times> world \<Rightarrow> (exn + int option) \<times> gui \<times> world" where
  "saveconfig arg gw =
     (let (g, w) = gw in
      case connect (dl7480 g, w) of
        (Inl e, s, w1) \<Rightarrow> (Inl e, g\<lparr>dl7480 := s\<rparr>, w1)
      | (Inr False, s, w1) \<Rightarrow> (Inr (Some 0), setStatus ''failed'' (g\<lparr>dl7480 := s\<rparr>), w1)
      | (Inr True, s, w1) \<Rightarrow>
     (let (st, g1) = getStatus (setStatus ''connected'' (g\<lparr>dl7480 := s\<rparr>)) in
      if st = ''connected'' then
        (let g2 = setStatus ''connected'' g1 in
         case getconfig (dl7480 g2, w1) of
           (Inl e, s2, w2) \<Rightarrow> (Inl e, g2\<lparr>dl7480 := s2\<rparr>, w2)
         | (Inr (stat, lrn), s2, w2) \<Rightarrow>
             (let g3 = g2\<lparr>dl7480 := s2\<rparr> in
              if lrn = [] then (Inr (Some 0), g3, notify NoLrn w2)
              else
                (let w3 = (if path_exists (Dat arg) w2 then shutil_copy (Dat arg) Bkup w2 else w2);
                     w4 = write_file (Dat arg) lrn w3;
                     g4 = g3\<lparr>saveid := Some arg, btnUndoSave := ''active''\<rparr>
                 in (Inr (Some arg), g4, notify Saved w4))))
      else (Inr None, g1, w1)))"

definition loadconfig :: "int \<Rightarrow> gui \<times> world \<Rightarrow> (exn + int option) \<times> gui \<times> world" where
  "loadconfig arg gw =
     (let (g, w) = gw in
      case connect (dl7480 g, w) of
        (Inl e, s, w1) \<Rightarrow> (Inl e, g\<lparr>dl7480 := s\<rparr>, w1)
      | (Inr False, s, w1) \<Rightarrow> (Inr (Some 0), setStatus ''failed'' (g\<lparr>dl7480 := s\<rparr>), w1)
      | (Inr True, s, w1) \<Rightarrow>
     (let (st, g1) = getStatus (setStatus ''connected'' (g\<lparr>dl7480 := s\<rparr>)) in
      if st = ''connected'' then
        (let g2 = setStatus ''connected'' g1;
             saved = map_option timeout (inst (dl7480 g2));
             restore = (\<lambda>s'. case saved of None \<Rightarrow> s' | Some v \<Rightarrow> set_timeout v s')
         in
         case getconfig (set_timeout 10000 (dl7480 g2), w1) of
           (Inl e, s2, w2) \<Rightarrow> (Inl e, g2\<lparr>dl7480 := s2\<rparr>, w2)
         | (Inr (stat, lrn), s2, w2) \<Rightarrow>
             (let g3 = g2\<lparr>dl7480 := s2\<rparr> in
              if stat = False then (Inr (Some 0), g3, notify NoResponse w2)
              else
                (let w3 = write_file Bkup lrn w2 in
                 case files w3 (Dat arg) of
                   Some text \<Rightarrow>
                     (case send_lines (py_lines text) (dl7480 g3, w3) of
                        (Inl e, s4, w4) \<Rightarrow> (Inl e, g3\<lparr>dl7480 := s4\<rparr>, w4)
                      | (Inr _, s4, w4) \<Rightarrow>
                          (Inr (Some arg),
                           g3\<lparr>dl7480 := restore s4, lastSavedID := Some (- 1),
                              btnUndoLoad := ''active''\<rparr>,
                           notify Loaded w4))
                 | None \<Rightarrow> (Inr (Some 0), g3\<lparr>dl7480 := restore (dl7480 g3)\<rparr>,
                            notify (NotFound (Dat arg)) w3))))
      else (Inr None, g1, w1)))"

section \<open>A bench: one foreign instrument and one DL7480 on the bus\<close>

definition dl7480_answers :: resource where
  "dl7480_answers =
     [(''*IDN?;'', ''YOKOGAWA,701480,0,F1.10''), (''*OPT?;'', ''CH4MW,LOGIC''),
      ('':ACQuire?'', '':ACQ:MODE NORM''),
      ('':CHANnel1?'', '':CHAN1:DISP ON''), ('':CHANnel2?'', '':CHAN2:DISP ON''),
      ('':CHANnel3?'', '':CHAN3:DISP ON''), ('':CHANnel4?'', '':CHAN4:DISP ON''),
      ('':CHANnel5?'', '':CHAN5:DISP ON''), ('':CHANnel6?'', '':CHAN6:DISP ON''),
      ('':CHANnel7?'', '':CHAN7:DISP ON''), ('':CHANnel8?'', '':CHAN8:DISP ON''),
      ('':CURSor?'', '':CURS:TYPE OFF''), ('':DISPlay?'', '':DISP:FORM SING''),
      ('':MATH?'', '':MATH1:DISP OFF''), ('':MEASure?'', '':MEAS:MODE OFF''),
      ('':SEARch?'', '':SEAR:TYPE EDGE''), ('':PHASe?'', '':PHAS:MODE OFF''),
      ('':TIMebase?'', '':TIM:TDIV 1E-3''), ('':TRIGger?'', '':TRIG:MODE AUTO''),
      ('':ZOOM?'', '':ZOOM:MODE MAIN'')]"

definition bench :: world where
  "bench = \<lparr>visa_list = [[(''*IDN?;'', ''ACME,1000,0,1.0'')], dl7480_answers],
             next_id = 0, managers = [], opened = [], default_timeout = 2000,
             wfail = [], writes = [], rx = [], files = Map.empty, tmpfiles = [],
             notified = []\<rparr>"



text \<open>
  The session and the world after \<open>connect()\<close> on the bench: the foreign instrument was
  opened as session 1, the DL7480 as session 2.
\<close>

definition on_bench :: session where
  "on_bench = \<lparr>rm = Some 0,
               inst = Some \<lparr>handle = 2, res = dl7480_answers, timeout = 5000\<rparr>,
               devname = ''DL7480'', opt = ''CH4MW,LOGIC''\<rparr>"

definition bench_open :: world where
  "bench_open = bench\<lparr>next_id := 3, managers := [0], opened := [(1, 0), (2, 0)]\<rparr>"

lemma connect_bench: "connect (init_session, bench) = (Inr True, on_bench, bench_open)"
  by (simp add: connect_def init_session_def bench_def query_def idn_match_def bind_inst_def
      dl7480_answers_def on_bench_def bench_open_def strip_ws_def py_space_def is_space_def)


section \<open>Session identity\<close>

lemma closeinst_devname:
  "devname (fst (closeinst (s, w))) = devname s \<and> inst (fst (closeinst (s, w))) = None"
  by (simp add: closeinst_def split: option.splits prod.splits)

lemma del_session_devname:
  "inst s \<noteq> None \<Longrightarrow> devname (fst (del_session (s, w))) = []"
  by (auto simp: del_session_def split: option.splits prod.splits)

text \<open>
  C10 (session identity invariant) fails on \<open>closeinst\<close>: it drops the transport and
  keeps \<open>devname\<close>, where \<open>__del__\<close> clears it. Connected to the DL7480 of the bench
  and then closed, the session has no transport and is still named \<open>DL7480\<close>.
\<close>

theorem closeinst_keeps_devname:
  "fst (connect (init_session, bench)) = Inr True \<and>
   inst (fst (closeinst (snd (connect (init_session, bench))))) = None \<and>
   devname (fst (closeinst (snd (connect (init_session, bench))))) = ''DL7480''"
  unfolding connect_bench using closeinst_devname[of on_bench bench_open]
  by (simp add: on_bench_def)


section \<open>Discovery and the transports it opens\<close>

text \<open>
  What follows is about the calls \<open>connect\<close> itself makes. When a dropped pyvisa
  resource object is finalised, and whether that closes its session, is decided by the
  Python runtime and by pyvisa; it is outside this model, and with it the question which
  sessions are open once \<open>connect()\<close> has returned (C9).

  By its own calls, \<open>connect()\<close> on the bench opens two sessions and closes none.
\<close>

lemma connect_leaves_candidate_open:
  "fst (connect (init_session, bench)) = Inr True \<and>
   map_option handle (inst (fst (snd (connect (init_session, bench))))) = Some 2 \<and>
   map fst (opened (snd (snd (connect (init_session, bench))))) = [1, 2]"
  unfolding connect_bench by (simp add: on_bench_def bench_open_def)

lemma bind_inst_opened:
  "bind_inst name dev (s, w) = (r, s', w') \<Longrightarrow>
     w' = w \<and> inst s' = Some (dev\<lparr>timeout := 5000\<rparr>)"
  by (auto simp: bind_inst_def Let_def split: option.splits)



lemma scan_step:
  "inst s = None \<Longrightarrow> scan m (src # rest) (s, w) =
      (case query \<lparr>handle = next_id w, res = src, timeout = default_timeout w\<rparr> ''*IDN?;'' of
         None \<Rightarrow> scan m rest (s, w\<lparr>next_id := next_id w + 1, opened := opened w @ [(next_id w, m)]\<rparr>)
       | Some idn \<Rightarrow>
           if idn_match ''56'' idn
           then bind_inst ''DL7440'' \<lparr>handle = next_id w, res = src, timeout = default_timeout w\<rparr>
                  (s, w\<lparr>next_id := next_id w + 1, opened := opened w @ [(next_id w, m)]\<rparr>)
           else if idn_match ''78'' idn
           then bind_inst ''DL7480'' \<lparr>handle = next_id w, res = src, timeout = default_timeout w\<rparr>
                  (s, w\<lparr>next_id := next_id w + 1, opened := opened w @ [(next_id w, m)]\<rparr>)
           else scan m rest (s, w\<lparr>next_id := next_id w + 1, opened := opened w @ [(next_id w, m)]\<rparr>))"
  by (subst scan.simps) (simp only: Let_def prod.case simp_thms if_True)

lemma opens_skip:
  assumes "opened w' = (opened w @ [hm]) @ new" "length new \<le> length rest"
    "inst s' = None \<longrightarrow> length new = length rest \<and> r = Inr ()"
    "\<forall>t. inst s' = Some t \<longrightarrow> new \<noteq> [] \<and> fst (last new) = handle t"
  shows "\<exists>new'. opened w' = opened w @ new' \<and> length new' \<le> length (src # rest) \<and>
        (inst s' = None \<longrightarrow> length new' = length (src # rest) \<and> r = Inr ()) \<and>
        (\<forall>t. inst s' = Some t \<longrightarrow> new' \<noteq> [] \<and> fst (last new') = handle t)"
proof (intro exI[of _ "hm # new"] conjI)
  show "opened w' = opened w @ hm # new" using assms(1) by simp
  show "length (hm # new) \<le> length (src # rest)" using assms(2) by simp
  show "inst s' = None \<longrightarrow> length (hm # new) = length (src # rest) \<and> r = Inr ()"
    using assms(3) by simp
  show "\<forall>t. inst s' = Some t \<longrightarrow> hm # new \<noteq> [] \<and> fst (last (hm # new)) = handle t"
    using assms(4) by simp
qed
lemma opens_hit:
  assumes "bind_inst name \<lparr>handle = h, res = src, timeout = d\<rparr> (s, w1) = (r, s', w')"
    and "opened w1 = opened w @ [(h, m)]"
  shows "\<exists>new'. opened w' = opened w @ new' \<and> length new' \<le> length (src # rest) \<and>
        (inst s' = None \<longrightarrow> length new' = length (src # rest) \<and> r = Inr ()) \<and>
        (\<forall>t. inst s' = Some t \<longrightarrow> new' \<noteq> [] \<and> fst (last new') = handle t)"
proof -
  from bind_inst_opened[OF assms(1)]
  have a: "w' = w1" and b: "inst s' = Some (\<lparr>handle = h, res = src, timeout = d\<rparr>\<lparr>timeout := 5000\<rparr>)"
    by simp_all
  show ?thesis
  proof (intro exI[of _ "[(h, m)]"] conjI)
    show "opened w' = opened w @ [(h, m)]" using a assms(2) by simp
    show "length [(h, m)] \<le> length (src # rest)" by simp
    show "inst s' = None \<longrightarrow> length [(h, m)] = length (src # rest) \<and> r = Inr ()"
      using b by simp
    show "\<forall>t. inst s' = Some t \<longrightarrow> [(h, m)] \<noteq> [] \<and> fst (last [(h, m)]) = handle t"
      using b by simp
  qed
qed

lemma scan_opens:
  "inst s = None \<Longrightarrow> scan m rs (s, w) = (r, s', w') \<Longrightarrow>
   \<exists>new. opened w' = opened w @ new \<and> length new \<le> length rs \<and>
        (inst s' = None \<longrightarrow> length new = length rs \<and> r = Inr ()) \<and>
        (\<forall>t. inst s' = Some t \<longrightarrow> new \<noteq> [] \<and> fst (last new) = handle t)"
proof (induction rs arbitrary: s w)
  case Nil
  then show ?case by (intro exI[of _ "[]"]) simp
next
  case (Cons src rest)
  define w1 where "w1 = w\<lparr>next_id := next_id w + 1, opened := opened w @ [(next_id w, m)]\<rparr>"
  define dev where "dev = \<lparr>handle = next_id w, res = src, timeout = default_timeout w\<rparr>"
  have ow1: "opened w1 = opened w @ [(next_id w, m)]" by (simp add: w1_def)
  have e: "(case query dev ''*IDN?;'' of
         None \<Rightarrow> scan m rest (s, w1)
       | Some idn \<Rightarrow>
           if idn_match ''56'' idn then bind_inst ''DL7440'' dev (s, w1)
           else if idn_match ''78'' idn then bind_inst ''DL7480'' dev (s, w1)
           else scan m rest (s, w1)) = (r, s', w')"
    using Cons.prems(2) unfolding w1_def dev_def scan_step[OF Cons.prems(1)] .
  have skip: ?case if a: "scan m rest (s, w1) = (r, s', w')"
  proof -
    from Cons.IH[OF Cons.prems(1) a] obtain new where
      n: "opened w' = opened w1 @ new \<and> length new \<le> length rest \<and>
         (inst s' = None \<longrightarrow> length new = length rest \<and> r = Inr ()) \<and>
         (\<forall>t. inst s' = Some t \<longrightarrow> new \<noteq> [] \<and> fst (last new) = handle t)" ..
    have n1: "opened w' = (opened w @ [(next_id w, m)]) @ new" using n ow1 by simp
    show ?thesis
      by (rule opens_skip[OF n1]) (use n in simp_all)
  qed
  have hit: ?case if a: "bind_inst name dev (s, w1) = (r, s', w')" for name
    by (rule opens_hit[OF a[unfolded dev_def] ow1])
  show ?case
  proof (cases "query dev ''*IDN?;''")
    case None
    with e have "scan m rest (s, w1) = (r, s', w')" by (simp only: option.case)
    then show ?thesis by (rule skip)
  next
    case (Some idn)
    show ?thesis
    proof (cases "idn_match ''56'' idn")
      case True
      with e Some have "bind_inst ''DL7440'' dev (s, w1) = (r, s', w')"
        by (simp only: option.case if_True)
      then show ?thesis by (rule hit)
    next
      case False
      show ?thesis
      proof (cases "idn_match ''78'' idn")
        case True
        with e Some False
        have "bind_inst ''DL7480'' dev (s, w1) = (r, s', w')"
          by (simp only: option.case if_True if_False)
        then show ?thesis by (rule hit)
      next
        case f2: False
        with e Some False have "scan m rest (s, w1) = (r, s', w')"
          by (simp only: option.case if_False)
        then show ?thesis by (rule skip)
      qed
    qed
  qed
qed


lemma connect_None:
  "inst s = None \<Longrightarrow> connect (s, w) =
     (case scan (next_id w) (visa_list w)
             (s\<lparr>rm := Some (next_id w)\<rparr>,
              w\<lparr>next_id := next_id w + 1, managers := managers w @ [next_id w]\<rparr>) of
        (Inl e, s2, w2) \<Rightarrow> (Inl e, s2, w2)
      | (Inr u, s2, w2) \<Rightarrow> if inst s2 = None then (Inr False, s2, w2) else (Inr True, s2, w2))"
  by (simp add: connect_def Let_def)

lemma connect_Some: "inst s = Some t \<Longrightarrow> connect (s, w) = (Inr True, s, w)"
  by (simp add: connect_def)

text \<open>
  \<open>connect()\<close> calls \<open>close()\<close> on nothing. In the model the
  sessions open before the call stay open and the ones it opens are appended. On a session
  that already has a transport nothing is opened and the result is True. Otherwise at most
  one session per candidate is opened; when the result is False every candidate was opened
  and is still open, and when it is not False (True, or the exception of the \<open>*OPT?;\<close>
  query) the session is bound to the transport opened last, with the unmatched candidates
  before it still open.
\<close>

lemma connect_closes_nothing:
  assumes c: "connect (s, w) = (r, s', w')"
  shows "\<exists>new. opened w' = opened w @ new \<and>
        (inst s \<noteq> None \<longrightarrow> new = [] \<and> r = Inr True) \<and>
        (inst s = None \<longrightarrow> length new \<le> length (visa_list w) \<and>
           (r = Inr False \<longrightarrow> inst s' = None \<and> length new = length (visa_list w)) \<and>
           (r \<noteq> Inr False \<longrightarrow>
              new \<noteq> [] \<and> map_option handle (inst s') = Some (fst (last new))))"
proof (cases "inst s")
  case (Some t)
  from c have "r = Inr True" "w' = w" unfolding connect_Some[OF Some] by simp_all
  with Some show ?thesis by (intro exI[of _ "[]"]) simp
next
  case None
  define w1 where "w1 = w\<lparr>next_id := next_id w + 1, managers := managers w @ [next_id w]\<rparr>"
  define s1 where "s1 = s\<lparr>rm := Some (next_id w)\<rparr>"
  obtain r2 s2 w2 where sc: "scan (next_id w) (visa_list w) (s1, w1) = (r2, s2, w2)"
    by (cases "scan (next_id w) (visa_list w) (s1, w1)") auto
  have i1: "inst s1 = None" using None by (simp add: s1_def)
  from scan_opens[OF i1 sc] obtain new where
    n: "opened w2 = opened w1 @ new \<and> length new \<le> length (visa_list w) \<and>
       (inst s2 = None \<longrightarrow> length new = length (visa_list w) \<and> r2 = Inr ()) \<and>
       (\<forall>t. inst s2 = Some t \<longrightarrow> new \<noteq> [] \<and> fst (last new) = handle t)" ..
  have ow: "opened w1 = opened w" by (simp add: w1_def)
  have c2: "(case r2 of Inl e \<Rightarrow> (Inl e, s2, w2)
            | Inr u \<Rightarrow> if inst s2 = None then (Inr False, s2, w2) else (Inr True, s2, w2))
            = (r, s', w')"
    using c unfolding connect_None[OF None] s1_def[symmetric] w1_def[symmetric] sc
    by (cases r2) simp_all
  have sw: "s' = s2" "w' = w2" using c2 by (cases r2; simp split: if_splits)+
  have rF: "r = Inr False \<longleftrightarrow> (inst s2 = None)"
  proof (cases r2)
    case (Inl e)
    with n have "inst s2 \<noteq> None" by auto
    with c2 Inl show ?thesis by auto
  next
    case (Inr u)
    with c2 show ?thesis by (simp split: if_splits) auto
  qed
  show ?thesis
  proof (intro exI[of _ new] conjI impI)
    show "opened w' = opened w @ new" using sw n ow by simp
    show "new = []" if "inst s \<noteq> None" using that None by simp
    show "r = Inr True" if "inst s \<noteq> None" using that None by simp
    show "length new \<le> length (visa_list w)" using n by simp
    show "inst s' = None" if "r = Inr False" using that rF sw by simp
    show "length new = length (visa_list w)" if "r = Inr False" using that rF n by simp
    show "new \<noteq> []" if "r \<noteq> Inr False" using that rF n by auto
    show "map_option handle (inst s') = Some (fst (last new))" if "r \<noteq> Inr False"
      using that rF n sw by auto
  qed
qed

text \<open>The theorem at the bench, from a fresh session.\<close>

lemma connect_closes_nothing_witness:
  "inst init_session = None \<and> fst (connect (init_session, bench)) \<noteq> Inr False \<and>
   (\<exists>new. opened bench_open = opened bench @ new \<and> new \<noteq> [] \<and>
          length new \<le> length (visa_list bench) \<and>
          map_option handle (inst on_bench) = Some (fst (last new)))"
proof -
  have a: "inst init_session = None" by (simp add: init_session_def)
  have b: "fst (connect (init_session, bench)) \<noteq> Inr False" by (simp add: connect_bench)
  have c: "(Inr True :: exn + bool) \<noteq> Inr False" by simp
  from connect_closes_nothing[OF connect_bench] obtain new where
    n: "opened bench_open = opened bench @ new \<and>
        (inst init_session \<noteq> None \<longrightarrow> new = [] \<and> (Inr True :: exn + bool) = Inr True) \<and>
        (inst init_session = None \<longrightarrow> length new \<le> length (visa_list bench) \<and>
           ((Inr True :: exn + bool) = Inr False \<longrightarrow>
              inst on_bench = None \<and> length new = length (visa_list bench)) \<and>
           ((Inr True :: exn + bool) \<noteq> Inr False \<longrightarrow>
              new \<noteq> [] \<and> map_option handle (inst on_bench) = Some (fst (last new))))" ..
  from n a c have "opened bench_open = opened bench @ new \<and> new \<noteq> [] \<and>
          length new \<le> length (visa_list bench) \<and>
          map_option handle (inst on_bench) = Some (fst (last new))"
    by simp
  then have "\<exists>new. opened bench_open = opened bench @ new \<and> new \<noteq> [] \<and>
          length new \<le> length (visa_list bench) \<and>
          map_option handle (inst on_bench) = Some (fst (last new))" ..
  with a b show ?thesis by simp
qed



section \<open>setconfig and the timeout\<close>

lemma session_inst_same: "inst s = Some t \<Longrightarrow> s\<lparr>inst := Some t\<rparr> = s"
  by (cases s) simp

lemma set_timeout_Some:
  "inst s = Some t \<Longrightarrow> set_timeout v s = s\<lparr>inst := Some (t\<lparr>timeout := v\<rparr>)\<rparr>"
  by (simp add: set_timeout_def)

lemma inst_write_log:
  "inst s = Some t \<Longrightarrow> inst_write s msg w = (r, w1) \<Longrightarrow>
     writes w1 = writes w @ [(timeout t, msg)]"
  by (auto simp: inst_write_def split: list.splits if_splits)

lemma inst_write_raises: "inst_write s msg w = (Inl e, w1) \<Longrightarrow> inst s \<noteq> None \<Longrightarrow> e = VisaIOError"
  by (auto simp: inst_write_def split: list.splits if_splits option.splits)

lemma setconfig_Some:
  assumes i: "inst s = Some t"
  shows "setconfig arg (s, w) =
     (case inst_write (set_timeout 20000 s) arg w of
        (Inr u, w1) \<Rightarrow> (Inr True, s, w1)
      | (Inl e, w1) \<Rightarrow>
          (case inst_write (set_timeout 20000 s) ''*CLS'' w1 of
             (Inl e', w2) \<Rightarrow> (Inl e', set_timeout 20000 s, w2)
           | (Inr u, w2) \<Rightarrow> (Inr False, s, w2)))"
proof -
  obtain r w1 where a: "inst_write (set_timeout 20000 s) arg w = (r, w1)"
    by (cases "inst_write (set_timeout 20000 s) arg w") auto
  obtain r2 w2 where b: "inst_write (set_timeout 20000 s) ''*CLS'' w1 = (r2, w2)"
    by (cases "inst_write (set_timeout 20000 s) ''*CLS'' w1") auto
  have i2: "inst (set_timeout 20000 s) \<noteq> None" using i by (simp add: set_timeout_def)
  have bk: "s\<lparr>inst := Some (t\<lparr>timeout := 20000\<rparr>)\<rparr>\<lparr>inst := Some (t\<lparr>timeout := timeout t\<rparr>)\<rparr> = s"
    using session_inst_same[OF i] by simp
  show ?thesis
  proof (cases r)
    case (Inr u)
    with a i bk show ?thesis
      by (simp add: setconfig_def set_timeout_Some[OF i] Let_def del: transport.update_convs session.update_convs)
  next
    case (Inl e)
    with a i2 have e: "e = VisaIOError" using inst_write_raises by blast
    show ?thesis
    proof (cases r2)
      case l2: (Inl e')
      with a b Inl e i show ?thesis
        by (simp add: setconfig_def set_timeout_Some[OF i] Let_def)
    next
      case r2': (Inr u)
      with a b Inl e i bk show ?thesis
        by (simp add: setconfig_def set_timeout_Some[OF i] Let_def)
    qed
  qed
qed

text \<open>
  C8 (setconfig timeout framing), as the code has it. On a session with a transport the
  text is written with the timeout at 20000. When that write succeeds the result is True
  and the session is as before, its timeout restored. When it times out, \<open>*CLS\<close> is
  written, again at 20000, and when that second write succeeds the result is False and the
  session is as before. On a session without transport for which \<open>connect()\<close> finds
  no instrument the result is False and nothing is written.
\<close>

theorem setconfig_timeout_framing:
  "(inst s = Some t \<longrightarrow>
      (\<forall>r w1. inst_write (set_timeout 20000 s) arg w = (r, w1) \<longrightarrow>
               writes w1 = writes w @ [(20000, arg)]) \<and>
      (\<forall>w1. inst_write (set_timeout 20000 s) arg w = (Inr (), w1) \<longrightarrow>
            setconfig arg (s, w) = (Inr True, s, w1)) \<and>
      (\<forall>w1 w2. inst_write (set_timeout 20000 s) arg w = (Inl VisaIOError, w1) \<longrightarrow>
               inst_write (set_timeout 20000 s) ''*CLS'' w1 = (Inr (), w2) \<longrightarrow>
               setconfig arg (s, w) = (Inr False, s, w2) \<and>
               writes w2 = writes w @ [(20000, arg), (20000, ''*CLS'')])) \<and>
   (inst s = None \<longrightarrow>
      (\<forall>s' w'. connect (s, w) = (Inr False, s', w') \<longrightarrow>
               setconfig arg (s, w) = (Inr False, s', w')))"
proof (intro conjI impI allI)
  fix r w1 assume i: "inst s = Some t" and a: "inst_write (set_timeout 20000 s) arg w = (r, w1)"
  have "inst (set_timeout 20000 s) = Some (t\<lparr>timeout := 20000\<rparr>)" using i by (simp add: set_timeout_def)
  from inst_write_log[OF this a] show "writes w1 = writes w @ [(20000, arg)]" by simp
next
  fix w1 assume i: "inst s = Some t" and a: "inst_write (set_timeout 20000 s) arg w = (Inr (), w1)"
  show "setconfig arg (s, w) = (Inr True, s, w1)" unfolding setconfig_Some[OF i] a by simp
next
  fix w1 w2 assume i: "inst s = Some t"
    and a: "inst_write (set_timeout 20000 s) arg w = (Inl VisaIOError, w1)"
    and b: "inst_write (set_timeout 20000 s) ''*CLS'' w1 = (Inr (), w2)"
  show "setconfig arg (s, w) = (Inr False, s, w2)" unfolding setconfig_Some[OF i] a by (simp add: b)
  have j: "inst (set_timeout 20000 s) = Some (t\<lparr>timeout := 20000\<rparr>)" using i by (simp add: set_timeout_def)
  from inst_write_log[OF j a] inst_write_log[OF j b]
  show "writes w2 = writes w @ [(20000, arg), (20000, ''*CLS'')]" by simp
next
  fix s' w' assume i: "inst s = None" and c: "connect (s, w) = (Inr False, s', w')"
  have "inst s' = None"
    using c i by (auto simp: connect_def Let_def split: prod.splits sum.splits if_splits)
  with i c show "setconfig arg (s, w) = (Inr False, s', w')" by (simp add: setconfig_def)
qed

text \<open>
  C8 as stated fails: the \<open>*CLS\<close> of the handler is itself a transport write outside any
  \<open>try\<close>. When both writes time out the VisaIOError leaves \<open>setconfig\<close> and the
  timeout stays at 20000.
\<close>

theorem setconfig_double_timeout_escapes:
  "fst (setconfig '':STOP;'' (on_bench, bench_open\<lparr>wfail := [True, True]\<rparr>)) = Inl VisaIOError \<and>
   map_option timeout
     (inst (fst (snd (setconfig '':STOP;'' (on_bench, bench_open\<lparr>wfail := [True, True]\<rparr>)))))
     = Some 20000"
  by code_simp


text \<open>
  The framing theorem on the bench: a write that succeeds, a write that times out followed
  by a \<open>*CLS\<close> that succeeds, and a bus without instruments.
\<close>

theorem setconfig_timeout_framing_witness:
  "inst on_bench = Some \<lparr>handle = 2, res = dl7480_answers, timeout = 5000\<rparr> \<and>
   setconfig '':STOP;'' (on_bench, bench_open)
     = (Inr True, on_bench, bench_open\<lparr>writes := [(20000, '':STOP;'')]\<rparr>) \<and>
   setconfig '':STOP;'' (on_bench, bench_open\<lparr>wfail := [True]\<rparr>)
     = (Inr False, on_bench, bench_open\<lparr>wfail := [], writes := [(20000, '':STOP;''), (20000, ''*CLS'')]\<rparr>) \<and>
   inst init_session = None \<and>
   setconfig '':STOP;'' (init_session, bench\<lparr>visa_list := []\<rparr>)
     = (Inr False, init_session\<lparr>rm := Some 0\<rparr>, bench\<lparr>visa_list := [], next_id := 1, managers := [0]\<rparr>)"
proof -
  define T where "T = \<lparr>handle = 2, res = dl7480_answers, timeout = 5000\<rparr>"
  have i: "inst on_bench = Some T" by (simp add: on_bench_def T_def)
  have a: "inst_write (set_timeout 20000 on_bench) '':STOP;'' bench_open
           = (Inr (), bench_open\<lparr>writes := [(20000, '':STOP;'')]\<rparr>)"
    by (simp add: inst_write_def set_timeout_def on_bench_def bench_open_def bench_def)
  have b: "inst_write (set_timeout 20000 on_bench) '':STOP;'' (bench_open\<lparr>wfail := [True]\<rparr>)
           = (Inl VisaIOError, bench_open\<lparr>wfail := [], writes := [(20000, '':STOP;'')]\<rparr>)"
    by (simp add: inst_write_def set_timeout_def on_bench_def bench_open_def bench_def)
  have c: "inst_write (set_timeout 20000 on_bench) ''*CLS''
             (bench_open\<lparr>wfail := [], writes := [(20000, '':STOP;'')]\<rparr>)
           = (Inr (), bench_open\<lparr>wfail := [], writes := [(20000, '':STOP;''), (20000, ''*CLS'')]\<rparr>)"
    by (simp add: inst_write_def set_timeout_def on_bench_def bench_open_def bench_def)
  have n: "inst init_session = None" by (simp add: init_session_def)
  have d: "connect (init_session, bench\<lparr>visa_list := []\<rparr>)
           = (Inr False, init_session\<lparr>rm := Some 0\<rparr>,
              bench\<lparr>visa_list := [], next_id := 1, managers := [0]\<rparr>)"
    by (simp add: connect_def init_session_def bench_def)
  have 1: "setconfig '':STOP;'' (on_bench, bench_open)
     = (Inr True, on_bench, bench_open\<lparr>writes := [(20000, '':STOP;'')]\<rparr>)"
    using setconfig_timeout_framing[of on_bench T "'':STOP;''" bench_open] i a by blast
  have 2: "setconfig '':STOP;'' (on_bench, bench_open\<lparr>wfail := [True]\<rparr>)
     = (Inr False, on_bench, bench_open\<lparr>wfail := [], writes := [(20000, '':STOP;''), (20000, ''*CLS'')]\<rparr>)"
    using setconfig_timeout_framing[of on_bench T "'':STOP;''" "bench_open\<lparr>wfail := [True]\<rparr>"] i b c
    by blast
  have 3: "setconfig '':STOP;'' (init_session, bench\<lparr>visa_list := []\<rparr>)
     = (Inr False, init_session\<lparr>rm := Some 0\<rparr>, bench\<lparr>visa_list := [], next_id := 1, managers := [0]\<rparr>)"
    using setconfig_timeout_framing[of init_session T "'':STOP;''" "bench\<lparr>visa_list := []\<rparr>"] n d
    by blast
  show ?thesis using i 1 2 3 n unfolding T_def by blast
qed

section \<open>Block decoding\<close>

text \<open>
  \<open>d0 == '\n'\<close> compares \<open>bytes\<close> with \<open>str\<close> and is never true, so the branch that
  reads the whole payload after a terminator is never taken: the byte read speculatively
  is always kept as the first payload byte.
\<close>

lemma py_eq_bytes_str: "\<not> py_eq (Bytes b) (Str s)"
  by (simp add: py_eq_def)

lemma read_data_never_sees_terminator:
  "read_data nbyte w =
     (case read_bytes 1 w of
        (Inl e, w1) \<Rightarrow> (Inl e, w1)
      | (Inr d0, w1) \<Rightarrow>
          (case read_bytes (nbyte - 1) w1 of
             (Inl e, w2) \<Rightarrow> (Inl e, w2)
           | (Inr r, w2) \<Rightarrow>
               (case read_bytes 1 w2 of
                  (Inl e, w3) \<Rightarrow> (Inl e, w3)
                | (Inr dmy, w3) \<Rightarrow> (Inr (d0 @ r), w3))))"
  by (simp add: read_data_def py_eq_bytes_str split: prod.splits sum.splits)

text \<open>
  What the decoder does with a payload \<open>p\<close> of at least one byte, declared with its
  length: without the optional terminator it returns \<open>p\<close>; with the terminator before
  the payload it returns the terminator followed by \<open>p\<close> without its last byte.
\<close>

lemma read_data_plain:
  assumes "p \<noteq> []"
  shows "read_data (int (length p)) (w\<lparr>rx := p @ c # rest\<rparr>) = (Inr p, w\<lparr>rx := rest\<rparr>)"
proof -
  obtain a q where p: "p = a # q" using assms by (cases p) auto
  have 1: "read_bytes 1 (w\<lparr>rx := a # q @ c # rest\<rparr>) = (Inr [a], w\<lparr>rx := q @ c # rest\<rparr>)"
    by (simp add: read_bytes_def)
  have 2: "read_bytes (int (length q)) (w\<lparr>rx := q @ c # rest\<rparr>) = (Inr q, w\<lparr>rx := c # rest\<rparr>)"
    by (cases "q = []") (simp_all add: read_bytes_def)
  have 3: "read_bytes 1 (w\<lparr>rx := c # rest\<rparr>) = (Inr [c], w\<lparr>rx := rest\<rparr>)"
    by (simp add: read_bytes_def)
  show ?thesis
    unfolding read_data_never_sees_terminator p using 1 2 3 by simp
qed

lemma read_data_after_terminator:
  assumes "p \<noteq> []"
  shows "read_data (int (length p)) (w\<lparr>rx := NL # p @ c # rest\<rparr>)
           = (Inr (NL # butlast p), w\<lparr>rx := c # rest\<rparr>)"
proof -
  obtain q l where p: "p = q @ [l]" using assms by (cases p rule: rev_cases) auto
  have 1: "read_bytes 1 (w\<lparr>rx := NL # q @ l # c # rest\<rparr>)
           = (Inr [NL], w\<lparr>rx := q @ l # c # rest\<rparr>)"
    by (simp add: read_bytes_def)
  have 2: "read_bytes (int (length q)) (w\<lparr>rx := q @ l # c # rest\<rparr>)
           = (Inr q, w\<lparr>rx := l # c # rest\<rparr>)"
    by (cases "q = []") (simp_all add: read_bytes_def)
  have 3: "read_bytes 1 (w\<lparr>rx := l # c # rest\<rparr>) = (Inr [l], w\<lparr>rx := c # rest\<rparr>)"
    by (simp add: read_bytes_def)
  show ?thesis
    unfolding read_data_never_sees_terminator p using 1 2 3 by simp
qed

text \<open>
  C1 (block decode round trip) fails where the optional terminator precedes the payload:
  for the one-byte payload \<open>A\<close>, digit count 1, the reply \<open>#11\nA\n\<close> decodes to the
  single byte \<open>\n\<close>; \<open>A\<close> is taken for the trailing byte and the last \<open>\n\<close> is left
  unread. It fails for the empty payload as well: the reply \<open>#10\n\<close> ends in a timeout.
\<close>

theorem capture_terminator_not_recognised:
  "fst (capture (on_bench, bench_open\<lparr>rx := ''#11'' @ [NL] @ ''A'' @ [NL]\<rparr>)) = Inr (True, TmpFile 0) \<and>
   tmpfiles (snd (snd (capture (on_bench, bench_open\<lparr>rx := ''#11'' @ [NL] @ ''A'' @ [NL]\<rparr>)))) = [[NL]] \<and>
   rx (snd (snd (capture (on_bench, bench_open\<lparr>rx := ''#11'' @ [NL] @ ''A'' @ [NL]\<rparr>)))) = [NL] \<and>
   fst (capture (on_bench, bench_open\<lparr>rx := ''#10'' @ [NL]\<rparr>))
     = Inr (False, Msg ''timeout during capturing'')"
  by code_simp

text \<open>
  C7 as stated fails: the reply \<open>XY11A\n\<close>, whose first two bytes both differ from
  \<open>#\<close>, is decoded and yields the image \<open>A\<close>.
\<close>

theorem capture_accepts_two_stray_bytes:
  "fst (capture (on_bench, bench_open\<lparr>rx := ''XY11A'' @ [NL]\<rparr>)) = Inr (True, TmpFile 0) \<and>
   tmpfiles (snd (snd (capture (on_bench, bench_open\<lparr>rx := ''XY11A'' @ [NL]\<rparr>)))) = [''A'']"
  by code_simp



text \<open>
  The header after the marker: what \<open>read_header\<close> returns on a reply that begins with
  \<open>#\<close>, in every case. None of the reads looks at anything but the stream.
\<close>

lemma py_int_Nil: "py_int [] = None"
  by (simp add: py_int_def)

lemma read_header_marker:
  "read_header (w\<lparr>rx := CHR ''#'' # dg # r\<rparr>) =
     (case py_int [dg] of
        None \<Rightarrow> (Inl ValueError, w\<lparr>rx := r\<rparr>)
      | Some k \<Rightarrow>
          if int (length r) < k then (Inl VisaIOError, w\<lparr>rx := []\<rparr>)
          else (case py_int (take (nat k) r) of
                  None \<Rightarrow> (Inl ValueError, w\<lparr>rx := drop (nat k) r\<rparr>)
                | Some n \<Rightarrow> (Inr n, w\<lparr>rx := drop (nat k) r\<rparr>)))"
proof (cases "py_int [dg]")
  case None
  then show ?thesis by (simp add: read_header_def read_bytes_def)
next
  case (Some k)
  show ?thesis
  proof (cases "k \<le> 0")
    case True
    with Some show ?thesis by (simp add: read_header_def read_bytes_def py_int_Nil)
  next
    case False
    with Some show ?thesis
      by (simp add: read_header_def read_bytes_def split: option.splits)
  qed
qed

lemma read_bytes_frame:
  "read_bytes n w = (r, w') \<Longrightarrow>
     wfail w' = wfail w \<and> writes w' = writes w \<and> tmpfiles w' = tmpfiles w"
  by (auto simp: read_bytes_def split: if_splits)

lemma read_header_frame:
  assumes "read_header w = (r, w')"
  shows "wfail w' = wfail w \<and> writes w' = writes w \<and> tmpfiles w' = tmpfiles w"
proof -
  obtain r1 w1 where a: "read_bytes 1 w = (r1, w1)" by (cases "read_bytes 1 w") auto
  note f1 = read_bytes_frame[OF a]
  show ?thesis
  proof (cases r1)
    case (Inl e)
    with assms a f1 show ?thesis by (simp add: read_header_def)
  next
    case (Inr shash)
    obtain r2 w2 where b: "(if shash \<noteq> ''#'' then read_bytes 1 w1 else (Inr shash, w1)) = (r2, w2)"
      by (cases "if shash \<noteq> ''#'' then read_bytes 1 w1 else (Inr shash, w1)") auto
    have f2: "wfail w2 = wfail w \<and> writes w2 = writes w \<and> tmpfiles w2 = tmpfiles w"
    proof (cases "shash \<noteq> ''#''")
      case True
      with b have "read_bytes 1 w1 = (r2, w2)" by simp
      from read_bytes_frame[OF this] f1 show ?thesis by simp
    next
      case False
      with b f1 show ?thesis by simp
    qed
    show ?thesis
    proof (cases r2)
      case l2: (Inl e)
      with assms a Inr b f2 show ?thesis by (simp add: read_header_def)
    next
      case i2: (Inr u)
      obtain r3 w3 where c: "read_bytes 1 w2 = (r3, w3)" by (cases "read_bytes 1 w2") auto
      from read_bytes_frame[OF c] f2
      have f3: "wfail w3 = wfail w \<and> writes w3 = writes w \<and> tmpfiles w3 = tmpfiles w" by simp
      show ?thesis
      proof (cases r3)
        case l3: (Inl e)
        with assms a Inr b i2 c f3 show ?thesis by (simp add: read_header_def)
      next
        case i3: (Inr sdigit)
        show ?thesis
        proof (cases "py_int sdigit")
          case None
          with assms a Inr b i2 c i3 f3 show ?thesis by (simp add: read_header_def)
        next
          case (Some nd)
          obtain r4 w4 where d: "read_bytes nd w3 = (r4, w4)" by (cases "read_bytes nd w3") auto
          from read_bytes_frame[OF d] f3
          have f4: "wfail w4 = wfail w \<and> writes w4 = writes w \<and> tmpfiles w4 = tmpfiles w" by simp
          from assms a Inr b i2 c i3 Some d f4 show ?thesis
            by (cases r4) (auto simp: read_header_def split: option.splits)
        qed
      qed
    qed
  qed
qed

lemma read_data_frame:
  assumes "read_data n w = (r, w')"
  shows "wfail w' = wfail w \<and> writes w' = writes w \<and> tmpfiles w' = tmpfiles w"
proof -
  obtain r1 w1 where a: "read_bytes 1 w = (r1, w1)" by (cases "read_bytes 1 w") auto
  note f1 = read_bytes_frame[OF a]
  show ?thesis
  proof (cases r1)
    case (Inl e)
    with assms a f1 show ?thesis by (simp add: read_data_never_sees_terminator)
  next
    case (Inr d0)
    obtain r2 w2 where b: "read_bytes (n - 1) w1 = (r2, w2)" by (cases "read_bytes (n - 1) w1") auto
    from read_bytes_frame[OF b] f1
    have f2: "wfail w2 = wfail w \<and> writes w2 = writes w \<and> tmpfiles w2 = tmpfiles w" by simp
    show ?thesis
    proof (cases r2)
      case l2: (Inl e)
      with assms a Inr b f2 show ?thesis by (simp add: read_data_never_sees_terminator)
    next
      case i2: (Inr rr)
      obtain r3 w3 where c: "read_bytes 1 w2 = (r3, w3)" by (cases "read_bytes 1 w2") auto
      from read_bytes_frame[OF c] f2
      have f3: "wfail w3 = wfail w \<and> writes w3 = writes w \<and> tmpfiles w3 = tmpfiles w" by simp
      from assms a Inr b i2 c f3 show ?thesis
        by (cases r3) (simp_all add: read_data_never_sees_terminator)
    qed
  qed
qed



text \<open>
  \<open>capture\<close> on a session with a transport whose writes succeed: the result is decided by
  the header read and the payload read alone.
\<close>

lemma inst_write_ok:
  "inst s = Some t \<Longrightarrow> wfail w = [] \<Longrightarrow>
     inst_write s m w = (Inr (), w\<lparr>writes := writes w @ [(timeout t, m)]\<rparr>)"
  by (simp add: inst_write_def)

definition image_requested :: "transport \<Rightarrow> world \<Rightarrow> world" where
  \<comment> \<open>the world once the five commands of lines 429-435 are written\<close>
  "image_requested t w =
     w\<lparr>writes := writes w @
          [(timeout t, ''*CLS;;''), (timeout t, '':IMAGe:FORMat JPEG;''),
           (timeout t, '':IMAGe:TONE COLor;''), (timeout t, '':STOP;*WAI;''),
           (10000, '':IMAGe:SEND?;'')]\<rparr>"

lemma capture_outcome:
  assumes i: "inst s = Some t" and q: "wfail w = []"
  shows "fst (capture (s, w)) =
     (case read_header (image_requested t w) of
        (Inl e, w3) \<Rightarrow> Inr (False, Msg ''response from oscilloscope is unexpected. Aborted.'')
      | (Inr nbyte, w3) \<Rightarrow>
          (case read_data nbyte w3 of
             (Inl e, w4) \<Rightarrow> Inr (False, Msg ''timeout during capturing'')
           | (Inr data, w4) \<Rightarrow> Inr (True, TmpFile (length (tmpfiles w)))))"
proof -
  define s1 where "s1 = set_timeout 10000 s"
  have i1: "inst s1 = Some (t\<lparr>timeout := 10000\<rparr>)" using i by (simp add: s1_def set_timeout_def)
  define w4 where "w4 = w\<lparr>writes := writes w @
          [(timeout t, ''*CLS;;''), (timeout t, '':IMAGe:FORMat JPEG;''),
           (timeout t, '':IMAGe:TONE COLor;''), (timeout t, '':STOP;*WAI;'')]\<rparr>"
  have wa: "write_all s [''*CLS;;'', '':IMAGe:FORMat JPEG;'', '':IMAGe:TONE COLor;'',
                        '':STOP;*WAI;''] w = (Inr (), w4)"
    using i q by (simp add: inst_write_def w4_def)
  have q4: "wfail w4 = []" using q by (simp add: w4_def)
  have iw: "inst_write s1 '':IMAGe:SEND?;'' w4 = (Inr (), image_requested t w)"
    unfolding inst_write_ok[OF i1 q4] by (simp add: w4_def image_requested_def)
  obtain r3 w3 where h: "read_header (image_requested t w) = (r3, w3)"
    by (cases "read_header (image_requested t w)") auto
  from read_header_frame[OF h]
  have f3: "wfail w3 = []" "tmpfiles w3 = tmpfiles w"
    using q by (simp_all add: image_requested_def)
  have cap: "capture (s, w) =
     (case r3 of
        Inl e \<Rightarrow>
          (case inst_write s1 ''*CLS'' w3 of
             (Inl e', w4) \<Rightarrow> (Inl e', s1, w4)
           | (Inr u, w4) \<Rightarrow>
               (Inr (False, Msg ''response from oscilloscope is unexpected. Aborted.''), s1, w4))
      | Inr nbyte \<Rightarrow>
          (case read_data nbyte w3 of
             (Inl e, w4) \<Rightarrow> (Inr (False, Msg ''timeout during capturing''), s1, w4)
           | (Inr data, w4) \<Rightarrow>
               (case inst_write s1 ''*WAI;*CLS;'' w4 of
                  (Inl e, w5) \<Rightarrow> (Inl e, s1, w5)
                | (Inr u, w5) \<Rightarrow>
                    (Inr (True, TmpFile (length (tmpfiles w5))), s1,
                     w5\<lparr>tmpfiles := tmpfiles w5 @ [data]\<rparr>))))"
    unfolding capture_def connect_Some[OF i]
    by (simp add: wa Let_def s1_def[symmetric] iw h del: write_all.simps split: sum.splits)
  show ?thesis
  proof (cases r3)
    case (Inl e)
    with cap h show ?thesis by (simp add: inst_write_ok[OF i1 f3(1)])
  next
    case (Inr nbyte)
    obtain r5 w5 where d: "read_data nbyte w3 = (r5, w5)" by (cases "read_data nbyte w3") auto
    from read_data_frame[OF d] f3 have f5: "wfail w5 = []" "tmpfiles w5 = tmpfiles w" by simp_all
    from cap h Inr d f5 show ?thesis
      by (cases r5) (simp_all add: inst_write_ok[OF i1 f5(1)])
  qed
qed


text \<open>
  C7 (block-start marker), as the code has it.
  \<^item> When the first byte is not \<open>#\<close>, exactly one more byte is read and it is not looked
    at: the header is read as if the reply had begun with a single \<open>#\<close> in place of
    those two bytes; when no second byte arrives the read times out.
  \<^item> After the marker the header read fails in these cases and no other: no digit-count
    byte arrives, or fewer length bytes arrive than the digit count announces (a timeout);
    the digit-count byte, or the length field, is not an integer (ValueError). Otherwise it
    returns the declared length and leaves the bytes after the length field unread.
  \<^item> On a session with a transport whose writes succeed, \<open>capture\<close> reports
    \<open>response from oscilloscope is unexpected\<close> when the header read fails,
    \<open>timeout during capturing\<close> when the header is read and the payload read times
    out, and success otherwise.
\<close>

theorem capture_marker_and_failures:
  "(c \<noteq> CHR ''#'' \<longrightarrow>
      read_header (w\<lparr>rx := c # d # rest\<rparr>) = read_header (w\<lparr>rx := CHR ''#'' # rest\<rparr>) \<and>
      read_header (w\<lparr>rx := [c]\<rparr>) = (Inl VisaIOError, w\<lparr>rx := []\<rparr>)) \<and>
   read_header (w\<lparr>rx := []\<rparr>) = (Inl VisaIOError, w\<lparr>rx := []\<rparr>) \<and>
   read_header (w\<lparr>rx := [CHR ''#'']\<rparr>) = (Inl VisaIOError, w\<lparr>rx := []\<rparr>) \<and>
   read_header (w\<lparr>rx := CHR ''#'' # dg # r\<rparr>) =
     (case py_int [dg] of
        None \<Rightarrow> (Inl ValueError, w\<lparr>rx := r\<rparr>)
      | Some k \<Rightarrow>
          if int (length r) < k then (Inl VisaIOError, w\<lparr>rx := []\<rparr>)
          else (case py_int (take (nat k) r) of
                  None \<Rightarrow> (Inl ValueError, w\<lparr>rx := drop (nat k) r\<rparr>)
                | Some n \<Rightarrow> (Inr n, w\<lparr>rx := drop (nat k) r\<rparr>))) \<and>
   (inst s = Some t \<longrightarrow> wfail w = [] \<longrightarrow>
      fst (capture (s, w)) =
        (case read_header (image_requested t w) of
           (Inl e, w3) \<Rightarrow> Inr (False, Msg ''response from oscilloscope is unexpected. Aborted.'')
         | (Inr nbyte, w3) \<Rightarrow>
             (case read_data nbyte w3 of
                (Inl e, w4) \<Rightarrow> Inr (False, Msg ''timeout during capturing'')
              | (Inr data, w4) \<Rightarrow> Inr (True, TmpFile (length (tmpfiles w))))))"
proof (intro conjI impI)
  assume "c \<noteq> CHR ''#''"
  then show "read_header (w\<lparr>rx := c # d # rest\<rparr>) = read_header (w\<lparr>rx := CHR ''#'' # rest\<rparr>)"
    by (simp add: read_header_def read_bytes_def)
next
  assume "c \<noteq> CHR ''#''"
  then show "read_header (w\<lparr>rx := [c]\<rparr>) = (Inl VisaIOError, w\<lparr>rx := []\<rparr>)"
    by (simp add: read_header_def read_bytes_def)
next
  show "read_header (w\<lparr>rx := []\<rparr>) = (Inl VisaIOError, w\<lparr>rx := []\<rparr>)"
    by (simp add: read_header_def read_bytes_def)
next
  show "read_header (w\<lparr>rx := [CHR ''#'']\<rparr>) = (Inl VisaIOError, w\<lparr>rx := []\<rparr>)"
    by (simp add: read_header_def read_bytes_def)
next
  show "read_header (w\<lparr>rx := CHR ''#'' # dg # r\<rparr>) =
     (case py_int [dg] of
        None \<Rightarrow> (Inl ValueError, w\<lparr>rx := r\<rparr>)
      | Some k \<Rightarrow>
          if int (length r) < k then (Inl VisaIOError, w\<lparr>rx := []\<rparr>)
          else (case py_int (take (nat k) r) of
                  None \<Rightarrow> (Inl ValueError, w\<lparr>rx := drop (nat k) r\<rparr>)
                | Some n \<Rightarrow> (Inr n, w\<lparr>rx := drop (nat k) r\<rparr>)))"
    by (rule read_header_marker)
next
  assume "inst s = Some t" and "wfail w = []"
  then show "fst (capture (s, w)) =
        (case read_header (image_requested t w) of
           (Inl e, w3) \<Rightarrow> Inr (False, Msg ''response from oscilloscope is unexpected. Aborted.'')
         | (Inr nbyte, w3) \<Rightarrow>
             (case read_data nbyte w3 of
                (Inl e, w4) \<Rightarrow> Inr (False, Msg ''timeout during capturing'')
              | (Inr data, w4) \<Rightarrow> Inr (True, TmpFile (length (tmpfiles w)))))"
    by (rule capture_outcome)
qed

text \<open>
  On the bench: the reply \<open>XY11A\n\<close> has the header of \<open>#11A\n\<close> and is captured;
  the reply \<open>XYzA\<close> fails on its digit count.
\<close>

theorem capture_marker_and_failures_witness:
  "CHR ''X'' \<noteq> CHR ''#'' \<and>
   read_header (bench_open\<lparr>rx := ''XY11A'' @ [NL]\<rparr>) = (Inr 1, bench_open\<lparr>rx := ''A'' @ [NL]\<rparr>) \<and>
   read_header (bench_open\<lparr>rx := ''XYzA''\<rparr>) = (Inl ValueError, bench_open\<lparr>rx := ''A''\<rparr>) \<and>
   inst on_bench = Some \<lparr>handle = 2, res = dl7480_answers, timeout = 5000\<rparr> \<and>
   wfail (bench_open\<lparr>rx := ''XYzA''\<rparr>) = [] \<and>
   fst (capture (on_bench, bench_open\<lparr>rx := ''XYzA''\<rparr>))
     = Inr (False, Msg ''response from oscilloscope is unexpected. Aborted.'') \<and>
   fst (capture (on_bench, bench_open\<lparr>rx := ''XY11A'' @ [NL]\<rparr>)) = Inr (True, TmpFile 0)"
proof -
  define T where "T = \<lparr>handle = 2, res = dl7480_answers, timeout = 5000\<rparr>"
  have a: "CHR ''X'' \<noteq> CHR ''#''" by simp
  have p1: "py_int ''1'' = Some 1" by code_simp
  have pz: "py_int ''z'' = None" by code_simp
  have h1: "read_header (bench_open\<lparr>rx := ''XY11A'' @ [NL]\<rparr>)
            = (Inr 1, bench_open\<lparr>rx := ''A'' @ [NL]\<rparr>)"
    using capture_marker_and_failures[where c = "CHR ''X''" and d = "CHR ''Y''"
        and rest = "''11A'' @ [NL]" and w = bench_open and dg = "CHR ''1''"
        and r = "''1A'' @ [NL]"] a p1
    by simp
  have h2: "read_header (bench_open\<lparr>rx := ''XYzA''\<rparr>) = (Inl ValueError, bench_open\<lparr>rx := ''A''\<rparr>)"
    using capture_marker_and_failures[where c = "CHR ''X''" and d = "CHR ''Y''"
        and rest = "''zA''" and w = bench_open and dg = "CHR ''z''" and r = "''A''"] a pz
    by simp
  have i: "inst on_bench = Some T" by (simp add: on_bench_def T_def)
  have q1: "wfail (bench_open\<lparr>rx := ''XYzA''\<rparr>) = []" by (simp add: bench_open_def bench_def)
  have q2: "wfail (bench_open\<lparr>rx := ''XY11A'' @ [NL]\<rparr>) = []" by (simp add: bench_open_def bench_def)
  have e1: "(case read_header (image_requested T (bench_open\<lparr>rx := ''XYzA''\<rparr>)) of
           (Inl e, w3) \<Rightarrow> Inr (False, Msg ''response from oscilloscope is unexpected. Aborted.'')
         | (Inr nbyte, w3) \<Rightarrow>
             (case read_data nbyte w3 of
                (Inl e, w4) \<Rightarrow> Inr (False, Msg ''timeout during capturing'')
              | (Inr data, w4) \<Rightarrow> Inr (True, TmpFile (length (tmpfiles (bench_open\<lparr>rx := ''XYzA''\<rparr>))))))
        = (Inr (False, Msg ''response from oscilloscope is unexpected. Aborted.'') :: exn + bool \<times> capmsg)"
    unfolding T_def by code_simp
  have e2: "(case read_header (image_requested T (bench_open\<lparr>rx := ''XY11A'' @ [NL]\<rparr>)) of
           (Inl e, w3) \<Rightarrow> Inr (False, Msg ''response from oscilloscope is unexpected. Aborted.'')
         | (Inr nbyte, w3) \<Rightarrow>
             (case read_data nbyte w3 of
                (Inl e, w4) \<Rightarrow> Inr (False, Msg ''timeout during capturing'')
              | (Inr data, w4) \<Rightarrow> Inr (True, TmpFile (length (tmpfiles (bench_open\<lparr>rx := ''XY11A'' @ [NL]\<rparr>))))))
        = (Inr (True, TmpFile 0) :: exn + bool \<times> capmsg)"
    unfolding T_def by code_simp
  have c1: "fst (capture (on_bench, bench_open\<lparr>rx := ''XYzA''\<rparr>))
     = Inr (False, Msg ''response from oscilloscope is unexpected. Aborted.'')"
    using capture_marker_and_failures[where s = on_bench and t = T
        and w = "bench_open\<lparr>rx := ''XYzA''\<rparr>"] i q1 e1
    by simp
  have c2: "fst (capture (on_bench, bench_open\<lparr>rx := ''XY11A'' @ [NL]\<rparr>)) = Inr (True, TmpFile 0)"
    using capture_marker_and_failures[where s = on_bench and t = T
        and w = "bench_open\<lparr>rx := ''XY11A'' @ [NL]\<rparr>"] i q2 e2
    by simp
  show ?thesis using a h1 h2 i q1 c1 c2 unfolding T_def by blast
qed

section \<open>Save, load and undo\<close>

text \<open>The window object once it is connected to the DL7480 of the bench.\<close>

definition gui_on_bench :: gui where
  "gui_on_bench = init_gui\<lparr>dl7480 := on_bench, status := ''connected''\<rparr>"

text \<open>
  C2 (save/undo round trip) fails. \<open>saveconfig\<close> records the slot in \<open>self.saveid\<close>,
  \<open>undoSave\<close> tests \<open>self.lastSavedId\<close>, which keeps the \<open>-1\<close> of \<open>__init__\<close>: the
  undo does nothing. With slot 3 holding \<open>old\<close>, a successful \<open>saveconfig(3)\<close> copies
  \<open>old\<close> to the backup and writes the new snapshot; after \<open>undoSave()\<close> slot 3 still
  holds the new snapshot and the backup still holds \<open>old\<close>.
\<close>

theorem undoSave_does_not_restore:
  "fst (saveconfig 3 (init_gui, bench\<lparr>files := [Dat 3 \<mapsto> ''old'']\<rparr>)) = Inr (Some 3) \<and>
   lastSavedId (fst (snd (saveconfig 3 (init_gui, bench\<lparr>files := [Dat 3 \<mapsto> ''old'']\<rparr>)))) = - 1 \<and>
   saveid (fst (snd (saveconfig 3 (init_gui, bench\<lparr>files := [Dat 3 \<mapsto> ''old'']\<rparr>)))) = Some 3 \<and>
   files (snd (snd (saveconfig 3 (init_gui, bench\<lparr>files := [Dat 3 \<mapsto> ''old'']\<rparr>)))) Bkup = Some ''old'' \<and>
   files (snd (undoSave (snd (saveconfig 3 (init_gui, bench\<lparr>files := [Dat 3 \<mapsto> ''old'']\<rparr>))))) (Dat 3) \<noteq> Some ''old'' \<and>
   files (snd (undoSave (snd (saveconfig 3 (init_gui, bench\<lparr>files := [Dat 3 \<mapsto> ''old'']\<rparr>))))) Bkup = Some ''old''"
  by code_simp

text \<open>
  C6 (undoLoad) fails where a backup exists: the lines of the backup are sent in file
  order, then \<open>shutil.remove\<close> raises AttributeError. The exception leaves \<open>undoLoad\<close>
  and the backup file is still there.
\<close>

theorem undoLoad_raises_and_keeps_backup:
  "fst (undoLoad 2 (gui_on_bench, bench_open\<lparr>files := [Bkup \<mapsto> '':STOP;'' @ [NL] @ ''*WAI;:ACQ:MODE NORM;'' @ [NL]]\<rparr>))
     = Inl AttributeError \<and>
   map snd (writes (snd (snd (undoLoad 2 (gui_on_bench, bench_open\<lparr>files := [Bkup \<mapsto> '':STOP;'' @ [NL] @ ''*WAI;:ACQ:MODE NORM;'' @ [NL]]\<rparr>)))))
     = ['':STOP;'' @ [NL], ''*WAI;:ACQ:MODE NORM;'' @ [NL]] \<and>
   files (snd (snd (undoLoad 2 (gui_on_bench, bench_open\<lparr>files := [Bkup \<mapsto> '':STOP;'' @ [NL] @ ''*WAI;:ACQ:MODE NORM;'' @ [NL]]\<rparr>)))) Bkup
     = Some ('':STOP;'' @ [NL] @ ''*WAI;:ACQ:MODE NORM;'' @ [NL])"
  by code_simp

text \<open>
  C5 as stated fails: on the bench, with neither slot 3 nor a backup on disk,
  \<open>loadconfig(3)\<close> returns 0 and leaves a backup file behind.
\<close>

theorem loadconfig_missing_slot_overwrites_backup:
  "files bench_open Bkup = None \<and> files bench_open (Dat 3) = None \<and>
   fst (loadconfig 3 (gui_on_bench, bench_open)) = Inr (Some 0) \<and>
   files (snd (snd (loadconfig 3 (gui_on_bench, bench_open)))) Bkup \<noteq> None"
  by code_simp

text \<open>For every state: what the two undo operations do.\<close>

lemma undoSave_noop: "lastSavedId g \<le> 0 \<Longrightarrow> undoSave (g, w) = (g, w)"
  by (simp add: undoSave_def)

lemma undoLoad_always_raises:
  "files w Bkup = Some text \<Longrightarrow> \<exists>e. fst (undoLoad arg (g, w)) = Inl e"
  by (auto simp: undoLoad_def shutil_remove_def split: prod.splits sum.splits)

lemma undoLoad_without_backup:
  "files w Bkup = None \<Longrightarrow> undoLoad arg (g, w) = (Inr (), g, w\<lparr>notified := notified w @ [NotFound Bkup]\<rparr>)"
  by (simp add: undoLoad_def notify_def)


lemma getconfig_Some:
  "inst s = Some t \<Longrightarrow> getconfig (s, w) =
     (case config_text s t of Inl e \<Rightarrow> (Inl e, s, w) | Inr txt \<Rightarrow> (Inr (True, txt), s, w))"
  by (simp add: getconfig_def)

lemma set_timeout_back: "inst s = Some t \<Longrightarrow> set_timeout (timeout t) (set_timeout v s) = s"
  by (cases s) (simp add: set_timeout_def)

text \<open>
  C5 (loading a missing slot), as the code has it. On a connected session whose
  configuration queries are answered with the snapshot \<open>lrn\<close>, \<open>loadconfig n\<close> for a
  slot file that does not exist returns 0 and reports that the slot file was not found; the
  session is as before (timeout restored, status \<open>connected\<close>), the configuration
  queries apart nothing is sent (no call of \<open>inst.write\<close>), no slot file changes, and
  the backup file now holds \<open>lrn\<close>.
\<close>

theorem loadconfig_missing_slot:
  assumes i: "inst (dl7480 g) = Some t"
    and f: "files w (Dat n) = None"
    and q: "config_text (set_timeout 10000 (dl7480 g)) (t\<lparr>timeout := 10000\<rparr>) = Inr lrn"
  shows "loadconfig n (g, w) =
           (Inr (Some 0), g\<lparr>status := ''connected''\<rparr>,
            w\<lparr>files := (files w)(Bkup \<mapsto> lrn), notified := notified w @ [NotFound (Dat n)]\<rparr>)"
proof -
  have i2: "inst (set_timeout 10000 (dl7480 g)) = Some (t\<lparr>timeout := 10000\<rparr>)"
    using i by (simp add: set_timeout_def)
  have gc: "getconfig (set_timeout 10000 (dl7480 g), w)
            = (Inr (True, lrn), set_timeout 10000 (dl7480 g), w)"
    unfolding getconfig_Some[OF i2] using q by simp
  have st: "getStatus (setStatus ''connected'' g) = (''connected'', g\<lparr>status := ''connected''\<rparr>)"
    by (simp add: getStatus_def setStatus_def)
  have st2: "setStatus ''connected'' (g\<lparr>status := ''connected''\<rparr>) = g\<lparr>status := ''connected''\<rparr>"
    by (simp add: setStatus_def)
  have bk: "set_timeout (timeout t) (set_timeout 10000 (dl7480 g)) = dl7480 g"
    by (rule set_timeout_back[OF i])
  have fw: "files (write_file Bkup lrn w) (Dat n) = None" using f by (simp add: write_file_def)
  have wf: "notify (NotFound (Dat n)) (write_file Bkup lrn w)
            = w\<lparr>files := (files w)(Bkup \<mapsto> lrn), notified := notified w @ [NotFound (Dat n)]\<rparr>"
    by (simp add: write_file_def notify_def)
  show ?thesis
    unfolding loadconfig_def
    by (simp add: connect_Some[OF i] st st2 Let_def i gc fw bk wf)
qed

text \<open>The theorem on the bench, for slot 3.\<close>

theorem loadconfig_missing_slot_witness:
  "inst (dl7480 gui_on_bench) = Some \<lparr>handle = 2, res = dl7480_answers, timeout = 5000\<rparr> \<and>
   files bench_open (Dat 3) = None \<and>
   fst (loadconfig 3 (gui_on_bench, bench_open)) = Inr (Some 0) \<and>
   notified (snd (snd (loadconfig 3 (gui_on_bench, bench_open)))) = [NotFound (Dat 3)] \<and>
   files (snd (snd (loadconfig 3 (gui_on_bench, bench_open)))) (Dat 3) = None \<and>
   writes (snd (snd (loadconfig 3 (gui_on_bench, bench_open)))) = []"
proof -
  define T where "T = \<lparr>handle = 2, res = dl7480_answers, timeout = 5000\<rparr>"
  have i: "inst (dl7480 gui_on_bench) = Some T"
    by (simp add: gui_on_bench_def on_bench_def T_def)
  have f: "files bench_open (Dat 3) = None" by (simp add: bench_open_def bench_def)
  have "\<not> isl (config_text (set_timeout 10000 (dl7480 gui_on_bench)) (T\<lparr>timeout := 10000\<rparr>))"
    unfolding T_def by code_simp
  then obtain lrn where
    q: "config_text (set_timeout 10000 (dl7480 gui_on_bench)) (T\<lparr>timeout := 10000\<rparr>) = Inr lrn"
    by (cases "config_text (set_timeout 10000 (dl7480 gui_on_bench)) (T\<lparr>timeout := 10000\<rparr>)") auto
  have l: "loadconfig 3 (gui_on_bench, bench_open) =
           (Inr (Some 0), gui_on_bench\<lparr>status := ''connected''\<rparr>,
            bench_open\<lparr>files := (files bench_open)(Bkup \<mapsto> lrn),
                       notified := notified bench_open @ [NotFound (Dat 3)]\<rparr>)"
    by (rule loadconfig_missing_slot[OF i f q])
  have n: "notified bench_open = []" "writes bench_open = []" by (simp_all add: bench_open_def bench_def)
  show ?thesis unfolding l using i f n unfolding T_def by simp
qed

text \<open>\<open>saveconfig\<close> never assigns \<open>lastSavedId\<close>, whatever it returns.\<close>

lemma saveconfig_lastSavedId:
  "saveconfig arg (g, w) = (r, g', w') \<Longrightarrow> lastSavedId g' = lastSavedId g"
  by (auto simp: saveconfig_def setStatus_def getStatus_def Let_def
      split: prod.splits sum.splits bool.splits if_splits)

end
